theory Spec2Isabelle
  imports Main
begin

section \<open>JSON payloads and JavaScript truthiness\<close>

text \<open>
  The request body is parsed JSON. A field that the body does not carry is \<open>undefined\<close> in
  the handlers, modelled as \<open>None\<close>. Numbers are kept as integers: the handlers only test
  them against zero and compare versions.
\<close>

datatype json =
    JNull
  | JBool bool
  | JNum int
  | JStr string
  | JArr "json list"
  | JObj "(string \<times> json) list"

text \<open>\<open>!x\<close> is true exactly for the falsy values: \<open>null\<close>, \<open>false\<close>, \<open>0\<close> and the empty string.\<close>

fun truthy :: "json \<Rightarrow> bool" where
  "truthy JNull = False"
| "truthy (JBool b) = b"
| "truthy (JNum n) = (n \<noteq> 0)"
| "truthy (JStr s) = (s \<noteq> [])"
| "truthy (JArr xs) = True"
| "truthy (JObj kvs) = True"

text \<open>
  The fields that the handlers destructure from \<open>req.body\<close>, typed as the interface
  \<open>SyncRequest\<close> types them (\<open>threadId\<close> and \<open>dataType\<close> strings, \<open>content\<close> any JSON,
  \<open>version\<close> a number), with \<open>force\<close> a boolean and \<open>backupId\<close> a backup identifier.
\<close>

record body =
  threadId :: "string option"
  dataType :: "string option"
  content :: "json option"
  version :: "int option"
  force :: "bool option"
  backupId :: "nat option"

section \<open>The relational store\<close>

text \<open>
  The three tables, with the columns that the statements of the sync routes read and
  write. A table is the list of its rows in insertion order; timestamps are clock ticks.
  The schema file of the repository declares other columns for the backups and the
  statistics, and uniqueness on \<open>(user_id, thread_id, data_type)\<close>; the statements are
  modelled against tables that have the columns and the conflict key they name, and a
  store that rejects a statement is covered by \<open>fails\<close> below.
\<close>

record doc_row =
  d_user_id :: string
  d_thread_id :: string
  d_data_type :: string
  d_content :: json
  d_version :: int
  d_updated_at :: nat

record backup_row =
  b_id :: nat
  b_user_id :: string
  b_thread_id :: string
  b_data_type :: string
  b_content :: json
  b_version :: int
  b_created_at :: nat

record stats_row =
  st_user_id :: string
  st_total_size_bytes :: nat
  st_thread_count :: nat
  st_last_updated :: nat

text \<open>\<open>backup_seq\<close> stands for the default of the \<open>id\<close> column: the next unused identifier.\<close>

record store =
  user_data :: "doc_row list"
  data_backups :: "backup_row list"
  storage_stats :: "stats_row list"
  backup_seq :: nat

definition empty_store :: store where
  "empty_store = \<lparr>user_data = [], data_backups = [], storage_stats = [], backup_seq = 0\<rparr>"

text \<open>
  Every statement sent with \<open>db.query\<close> can be rejected by the store (a violated
  constraint, a lost connection): the promise rejects and \<open>await\<close> throws. Which
  statements are rejected during one request is a parameter, \<open>fails\<close>. The environment
  also carries the clock of the store (\<open>NOW()\<close>), the clock of the process
  (\<open>new Date()\<close>), the length of the text form of a JSONB value
  (\<open>LENGTH(content::text)\<close>), JavaScript's \<open>parseInt\<close> (\<open>None\<close> is \<open>NaN\<close>) and the JSONB
  value that the store reads from a text it accepts as JSON (\<open>jsonb_in\<close>).
  The statements \<open>BEGIN\<close>, \<open>COMMIT\<close> and \<open>ROLLBACK\<close> themselves are taken to succeed, and
  the statements of one request to run on one connection.
\<close>

datatype stmt =
    SelectUserData
  | InsertBackup
  | UpsertUserData
  | DeleteUserData
  | SelectSize
  | UpsertStats
  | SelectBackupById
  | SelectBackups
  | SelectStats
  | CountUserData
  | CountBackups

datatype db_error = QueryFailed

record env =
  fails :: "stmt \<Rightarrow> bool"
  db_now :: nat
  js_now :: nat
  text_length :: "json \<Rightarrow> nat"
  parseInt :: "string \<Rightarrow> int option"
  jsonb_in :: "string \<Rightarrow> json"

text \<open>
  A JavaScript value handed to \<open>db.query\<close> for a JSONB column without \<open>JSON.stringify\<close>
  is encoded by the driver: an object as its JSON text, a number or a boolean as its
  text, a string as its bare characters, an array as a PostgreSQL array literal (the
  empty array as \<open>{}\<close>), \<open>null\<close> as SQL \<open>NULL\<close>. \<open>pg_param\<close> is the JSONB value that the
  store reads from what the driver sends, when the store accepts it: an object, a number
  and a boolean come back as they are, the empty array comes back as the empty object,
  and a string comes back as the value that its characters denote as JSON text. The
  literal of a non-empty array is never JSON text and \<open>NULL\<close> is not a value of the
  content column: the store rejects the statement (a case of \<open>fails\<close>), and for them
  \<open>pg_param\<close> leaves the value as it is. Save serialises its content with
  \<open>JSON.stringify\<close>, whose text the store reads back as the same value.
\<close>

fun pg_param :: "env \<Rightarrow> json \<Rightarrow> json" where
  "pg_param e (JObj kvs) = JObj kvs"
| "pg_param e (JNum n) = JNum n"
| "pg_param e (JBool b) = JBool b"
| "pg_param e (JStr s) = jsonb_in e s"
| "pg_param e (JArr []) = JObj []"
| "pg_param e (JArr (x # xs)) = JArr (x # xs)"
| "pg_param e JNull = JNull"

definition for_thread :: "string \<Rightarrow> string \<Rightarrow> doc_row \<Rightarrow> bool" where
  "for_thread u t d \<longleftrightarrow> d_user_id d = u \<and> d_thread_id d = t"

text \<open>\<open>SELECT * FROM user_data WHERE user_id = $1 AND thread_id = $2\<close>\<close>

definition select_user_data :: "env \<Rightarrow> string \<Rightarrow> string \<Rightarrow> store \<Rightarrow> db_error + doc_row list" where
  "select_user_data e u t s =
     (if fails e SelectUserData then Inl QueryFailed
      else Inr (filter (for_thread u t) (user_data s)))"

text \<open>
  \<open>INSERT INTO data_backups (\<dots>) SELECT user_id, thread_id, data_type, content, version,
  updated_at FROM user_data WHERE user_id = $1 AND thread_id = $2\<close>: one backup for each
  selected row, stamped with the row's \<open>updated_at\<close>.
\<close>

definition backup_of :: "nat \<Rightarrow> nat \<Rightarrow> doc_row \<Rightarrow> backup_row" where
  "backup_of i ts d =
     \<lparr>b_id = i, b_user_id = d_user_id d, b_thread_id = d_thread_id d,
      b_data_type = d_data_type d, b_content = d_content d, b_version = d_version d,
      b_created_at = ts\<rparr>"

definition insert_backup_select :: "env \<Rightarrow> string \<Rightarrow> string \<Rightarrow> store \<Rightarrow> db_error + store" where
  "insert_backup_select e u t s =
     (if fails e InsertBackup then Inl QueryFailed
      else
        let rows = filter (for_thread u t) (user_data s);
            ids = [backup_seq s ..< backup_seq s + length rows]
        in Inr (s\<lparr>data_backups :=
                     data_backups s @ map2 (\<lambda>i d. backup_of i (d_updated_at d) d) ids rows,
                   backup_seq := backup_seq s + length rows\<rparr>))"

text \<open>
  \<open>INSERT INTO data_backups (\<dots>) VALUES ($1, $2, $3, $4, $5, NOW())\<close>, as Restore and
  Delete send it with the columns of \<open>currentData.rows[0]\<close>; the content goes to the
  driver as the value read from the row, not serialised.
\<close>

definition insert_backup_values ::
  "env \<Rightarrow> string \<Rightarrow> string \<Rightarrow> string \<Rightarrow> json \<Rightarrow> int \<Rightarrow> store \<Rightarrow> db_error + store" where
  "insert_backup_values e u t dt c v s =
     (if fails e InsertBackup then Inl QueryFailed
      else Inr (s\<lparr>data_backups :=
                     data_backups s @
                       [\<lparr>b_id = backup_seq s, b_user_id = u, b_thread_id = t, b_data_type = dt,
                         b_content = pg_param e c, b_version = v, b_created_at = db_now e\<rparr>],
                   backup_seq := Suc (backup_seq s)\<rparr>))"

text \<open>
  \<open>INSERT INTO user_data (\<dots>) VALUES ($1, $2, $3, $4, $5, NOW())
  ON CONFLICT (user_id, thread_id) DO UPDATE SET data_type = EXCLUDED.data_type,
  content = EXCLUDED.content, version = \<dots>, updated_at = EXCLUDED.updated_at\<close>.
  The two upserts differ in the version of the update branch only, the argument \<open>vup\<close>.
\<close>

definition upsert :: "env \<Rightarrow> string \<Rightarrow> string \<Rightarrow> string \<Rightarrow> json \<Rightarrow> int \<Rightarrow> int \<Rightarrow> store \<Rightarrow> db_error + store" where
  "upsert e u t dt c v vup s =
     (if fails e UpsertUserData then Inl QueryFailed
      else if \<exists>d \<in> set (user_data s). for_thread u t d
      then Inr (s\<lparr>user_data :=
                   map (\<lambda>d. if for_thread u t d
                             then d\<lparr>d_data_type := dt, d_content := c, d_version := vup,
                                    d_updated_at := db_now e\<rparr>
                             else d) (user_data s)\<rparr>)
      else Inr (s\<lparr>user_data :=
                   user_data s @
                     [\<lparr>d_user_id = u, d_thread_id = t, d_data_type = dt, d_content = c,
                       d_version = v, d_updated_at = db_now e\<rparr>]\<rparr>))"

text \<open>Save: \<open>version = EXCLUDED.version\<close>; the content parameter is \<open>JSON.stringify(content)\<close>.\<close>

definition upsert_user_data :: "env \<Rightarrow> string \<Rightarrow> string \<Rightarrow> string \<Rightarrow> json \<Rightarrow> int \<Rightarrow> store \<Rightarrow> db_error + store" where
  "upsert_user_data e u t dt c v s = upsert e u t dt c v v s"

text \<open>Restore: \<open>version = EXCLUDED.version + 1\<close>; the content parameter is
  \<open>backupData.content\<close>, not serialised.\<close>

definition upsert_user_data_restore :: "env \<Rightarrow> string \<Rightarrow> string \<Rightarrow> string \<Rightarrow> json \<Rightarrow> int \<Rightarrow> store \<Rightarrow> db_error + store" where
  "upsert_user_data_restore e u t dt c v s = upsert e u t dt (pg_param e c) v (v + 1) s"

text \<open>\<open>DELETE FROM user_data WHERE user_id = $1 AND thread_id = $2\<close>, with its \<open>rowCount\<close>.\<close>

definition delete_user_data :: "env \<Rightarrow> string \<Rightarrow> string \<Rightarrow> store \<Rightarrow> db_error + (store \<times> nat)" where
  "delete_user_data e u t s =
     (if fails e DeleteUserData then Inl QueryFailed
      else Inr (s\<lparr>user_data := filter (\<lambda>d. \<not> for_thread u t d) (user_data s)\<rparr>,
                length (filter (for_thread u t) (user_data s))))"

subsection \<open>Transactions\<close>

text \<open>
  Between \<open>BEGIN\<close> and \<open>COMMIT\<close> the statements work on \<open>work\<close>. A statement that the
  store rejects changes nothing and leaves the transaction aborted; \<open>COMMIT\<close> of an
  aborted transaction discards the work, as \<open>ROLLBACK\<close> does (PostgreSQL).
\<close>

record txn =
  work :: store
  aborted :: bool

definition begin_txn :: "store \<Rightarrow> txn" where
  "begin_txn s = \<lparr>work = s, aborted = False\<rparr>"

definition commit :: "store \<Rightarrow> txn \<Rightarrow> store" where
  "commit snapshot tx = (if aborted tx then snapshot else work tx)"

text \<open>
  \<open>updateStorageStats\<close>: the sum of the text lengths and the count of the user's rows
  (\<open>parseInt(\<dots>) || 0\<close> turns the \<open>NULL\<close> sum of no rows into 0), upserted on \<open>user_id\<close>.
  Its \<open>try\<close>/\<open>catch\<close> logs a rejected statement and returns normally.
\<close>

definition select_size :: "env \<Rightarrow> string \<Rightarrow> store \<Rightarrow> db_error + (nat \<times> nat)" where
  "select_size e u s =
     (if fails e SelectSize then Inl QueryFailed
      else
        let rows = filter (\<lambda>d. d_user_id d = u) (user_data s)
        in Inr (sum_list (map (\<lambda>d. text_length e (d_content d)) rows), length rows))"

definition upsert_stats :: "env \<Rightarrow> string \<Rightarrow> nat \<Rightarrow> nat \<Rightarrow> store \<Rightarrow> db_error + store" where
  "upsert_stats e u totalSize threadCount s =
     (if fails e UpsertStats then Inl QueryFailed
      else if \<exists>r \<in> set (storage_stats s). st_user_id r = u
      then Inr (s\<lparr>storage_stats :=
                   map (\<lambda>r. if st_user_id r = u
                             then r\<lparr>st_total_size_bytes := totalSize,
                                    st_thread_count := threadCount,
                                    st_last_updated := db_now e\<rparr>
                             else r) (storage_stats s)\<rparr>)
      else Inr (s\<lparr>storage_stats :=
                   storage_stats s @
                     [\<lparr>st_user_id = u, st_total_size_bytes = totalSize,
                       st_thread_count = threadCount, st_last_updated = db_now e\<rparr>]\<rparr>))"

definition updateStorageStats :: "env \<Rightarrow> string \<Rightarrow> txn \<Rightarrow> txn" where
  "updateStorageStats e userId tx =
     (case select_size e userId (work tx) of
        Inl err \<Rightarrow> tx\<lparr>aborted := True\<rparr>
      | Inr (totalSize, threadCount) \<Rightarrow>
          (case upsert_stats e userId totalSize threadCount (work tx) of
             Inl err \<Rightarrow> tx\<lparr>aborted := True\<rparr>
           | Inr s' \<Rightarrow> tx\<lparr>work := s'\<rparr>))"

section \<open>Responses\<close>

text \<open>
  One constructor for each shape of response that the sync routes send, with the fields
  that vary: \<open>SaveOk version updated_at\<close>, \<open>Conflict serverVersion serverData
  serverUpdatedAt\<close>, \<open>LoadOk data version updated_at data_type\<close>, \<open>HistoryOk current
  history\<close>, \<open>RestoreOk version restored_at\<close>, \<open>DeleteOk message\<close>, \<open>StatsOk storageStats
  threadCount backupCount\<close>; the error responses carry their \<open>error\<close> text.
\<close>

datatype response =
    SaveOk int nat
  | Conflict int json nat
  | BadRequest string
  | NotFound string
  | InternalError string
  | LoadOk json int nat string
  | HistoryOk "doc_row option" "backup_row list"
  | RestoreOk int nat
  | DeleteOk string
  | StatsOk "stats_row option" nat nat
  | AuthFailed nat string
  | RouteNotFound

fun status :: "response \<Rightarrow> nat" where
  "status (SaveOk v ts) = 200"
| "status (Conflict v c ts) = 409"
| "status (BadRequest m) = 400"
| "status (NotFound m) = 404"
| "status (InternalError m) = 500"
| "status (LoadOk c v ts dt) = 200"
| "status (HistoryOk cur hist) = 200"
| "status (RestoreOk v ts) = 200"
| "status (DeleteOk m) = 200"
| "status (StatsOk st n m) = 200"
| "status (AuthFailed code m) = code"
| "status RouteNotFound = 404"

section \<open>The sync routes\<close>

definition valid_data_types :: "string list" where
  "valid_data_types = [''spreadsheet'', ''document'', ''both'']"

subsection \<open>\<open>POST /\<close>: Save\<close>

text \<open>The transaction of Save; any rejected statement of the \<open>try\<close> block ends in \<open>ROLLBACK\<close>
  and the response 500 of the outer \<open>catch\<close>.\<close>

definition save_txn ::
  "env \<Rightarrow> string \<Rightarrow> string \<Rightarrow> string \<Rightarrow> json \<Rightarrow> int \<Rightarrow> doc_row list \<Rightarrow> store \<Rightarrow> response \<times> store" where
  "save_txn e userId t dt c ver existing s =
     (case (if existing \<noteq> [] then insert_backup_select e userId t s else Inr s) of
        Inl err \<Rightarrow> (InternalError ''Internal server error during sync'', s)
      | Inr s1 \<Rightarrow>
          (case upsert_user_data e userId t dt c ver s1 of
             Inl err \<Rightarrow> (InternalError ''Internal server error during sync'', s)
           | Inr s2 \<Rightarrow>
               (SaveOk ver (js_now e),
                commit s (updateStorageStats e userId (begin_txn s2)))))"

definition save_checked ::
  "env \<Rightarrow> string \<Rightarrow> string \<Rightarrow> string \<Rightarrow> json \<Rightarrow> int \<Rightarrow> bool \<Rightarrow> store \<Rightarrow> response \<times> store" where
  "save_checked e userId t dt c ver frc s =
     (if dt \<notin> set valid_data_types
      then (BadRequest ''Invalid dataType. Must be: spreadsheet, document, or both'', s)
      else
        (case select_user_data e userId t s of
           Inl err \<Rightarrow> (InternalError ''Internal server error during sync'', s)
         | Inr [] \<Rightarrow> save_txn e userId t dt c ver [] s
         | Inr (existing # rest) \<Rightarrow>
             if \<not> frc \<and> d_version existing > ver
             then (Conflict (d_version existing) (d_content existing) (d_updated_at existing), s)
             else save_txn e userId t dt c ver (existing # rest) s))"

text \<open>\<open>const { threadId, dataType, content, version = 1, force = false } = req.body\<close>\<close>

definition req_version :: "body \<Rightarrow> int" where
  "req_version b = (case version b of None \<Rightarrow> 1 | Some v \<Rightarrow> v)"

definition req_force :: "body \<Rightarrow> bool" where
  "req_force b = (case force b of None \<Rightarrow> False | Some f \<Rightarrow> f)"

definition save :: "env \<Rightarrow> string \<Rightarrow> body \<Rightarrow> store \<Rightarrow> response \<times> store" where
  "save e userId b s =
     (case (threadId b, dataType b, content b) of
        (Some t, Some dt, Some c) \<Rightarrow>
          if t = [] \<or> dt = [] \<or> \<not> truthy c
          then (BadRequest ''Missing required fields: threadId, dataType, content'', s)
          else save_checked e userId t dt c (req_version b) (req_force b) s
      | _ \<Rightarrow> (BadRequest ''Missing required fields: threadId, dataType, content'', s))"

subsection \<open>\<open>GET /:threadId\<close>: Load\<close>

definition load :: "env \<Rightarrow> string \<Rightarrow> string \<Rightarrow> string option \<Rightarrow> store \<Rightarrow> response \<times> store" where
  "load e userId t dataTypeQ s =
     (let dt = (case dataTypeQ of None \<Rightarrow> ''both'' | Some q \<Rightarrow> q)
      in
        if dt \<notin> set valid_data_types
        then (BadRequest ''Invalid dataType. Must be: spreadsheet, document, or both'', s)
        else
          (case select_user_data e userId t s of
             Inl err \<Rightarrow> (InternalError ''Internal server error while retrieving data'', s)
           | Inr [] \<Rightarrow> (NotFound ''Data not found'', s)
           | Inr (d # rest) \<Rightarrow>
               (LoadOk (d_content d) (d_version d) (d_updated_at d) (d_data_type d), s)))"

subsection \<open>\<open>GET /:threadId/history\<close>: History\<close>

text \<open>
  \<open>SELECT * FROM data_backups WHERE user_id = $1 AND thread_id = $2 ORDER BY created_at
  DESC LIMIT $3\<close>. The store rejects a limit that is \<open>NaN\<close> or negative. Rows of equal
  \<open>created_at\<close> keep their insertion order here; the store promises no order among them.
\<close>

definition select_backups ::
  "env \<Rightarrow> string \<Rightarrow> string \<Rightarrow> int option \<Rightarrow> store \<Rightarrow> db_error + backup_row list" where
  "select_backups e u t lim s =
     (if fails e SelectBackups then Inl QueryFailed
      else
        (case lim of
           None \<Rightarrow> Inl QueryFailed
         | Some n \<Rightarrow>
             if n < 0 then Inl QueryFailed
             else Inr (take (nat n)
                        (sort_key (\<lambda>b. - int (b_created_at b))
                           (filter (\<lambda>b. b_user_id b = u \<and> b_thread_id b = t) (data_backups s))))))"

text \<open>\<open>const { limit = 10 } = req.query\<close>, then \<open>parseInt(limit)\<close>; the default 10 parses to 10.\<close>

definition history :: "env \<Rightarrow> string \<Rightarrow> string \<Rightarrow> string option \<Rightarrow> store \<Rightarrow> response \<times> store" where
  "history e userId t limitQ s =
     (case select_user_data e userId t s of
        Inl err \<Rightarrow> (InternalError ''Internal server error while retrieving history'', s)
      | Inr mainData \<Rightarrow>
          (case select_backups e userId t
                  (case limitQ of None \<Rightarrow> Some 10 | Some l \<Rightarrow> parseInt e l) s of
             Inl err \<Rightarrow> (InternalError ''Internal server error while retrieving history'', s)
           | Inr hist \<Rightarrow>
               (HistoryOk (case mainData of [] \<Rightarrow> None | d # rest \<Rightarrow> Some d) hist, s)))"

subsection \<open>\<open>POST /:threadId/restore\<close>: Restore\<close>

text \<open>\<open>SELECT * FROM data_backups WHERE id = $1 AND user_id = $2\<close>\<close>

definition select_backup_by_id :: "env \<Rightarrow> nat \<Rightarrow> string \<Rightarrow> store \<Rightarrow> db_error + backup_row list" where
  "select_backup_by_id e i u s =
     (if fails e SelectBackupById then Inl QueryFailed
      else Inr (filter (\<lambda>b. b_id b = i \<and> b_user_id b = u) (data_backups s)))"

definition restore_txn :: "env \<Rightarrow> string \<Rightarrow> string \<Rightarrow> backup_row \<Rightarrow> store \<Rightarrow> response \<times> store" where
  "restore_txn e userId t backupData s =
     (case select_user_data e userId t s of
        Inl err \<Rightarrow> (InternalError ''Internal server error during restore'', s)
      | Inr currentData \<Rightarrow>
          (case (case currentData of
                   [] \<Rightarrow> Inr s
                 | cur # rest \<Rightarrow>
                     insert_backup_values e userId t
                       (d_data_type cur) (d_content cur) (d_version cur) s) of
             Inl err \<Rightarrow> (InternalError ''Internal server error during restore'', s)
           | Inr s1 \<Rightarrow>
               (case upsert_user_data_restore e userId t (b_data_type backupData)
                       (b_content backupData) (b_version backupData) s1 of
                  Inl err \<Rightarrow> (InternalError ''Internal server error during restore'', s)
                | Inr s2 \<Rightarrow>
                    (RestoreOk (b_version backupData) (js_now e),
                     commit s (updateStorageStats e userId (begin_txn s2))))))"

text \<open>A backup identifier stands for a UUID string, so every supplied one is truthy;
  \<open>None\<close> is a missing or falsy \<open>backupId\<close>.\<close>

definition restore :: "env \<Rightarrow> string \<Rightarrow> string \<Rightarrow> body \<Rightarrow> store \<Rightarrow> response \<times> store" where
  "restore e userId t b s =
     (case backupId b of
        None \<Rightarrow> (BadRequest ''backupId is required'', s)
      | Some i \<Rightarrow>
          (case select_backup_by_id e i userId s of
             Inl err \<Rightarrow> (InternalError ''Internal server error during restore'', s)
           | Inr [] \<Rightarrow> (NotFound ''Backup not found'', s)
           | Inr (backupData # rest) \<Rightarrow> restore_txn e userId t backupData s))"

subsection \<open>\<open>DELETE /:threadId\<close>: Delete\<close>

text \<open>\<open>deleteResult.rowCount\<close> goes to the log line only (\<open>wasDeleted\<close>).\<close>

definition delete :: "env \<Rightarrow> string \<Rightarrow> string \<Rightarrow> store \<Rightarrow> response \<times> store" where
  "delete e userId t s =
     (case select_user_data e userId t s of
        Inl err \<Rightarrow> (InternalError ''Internal server error during deletion'', s)
      | Inr currentData \<Rightarrow>
          (case (case currentData of
                   [] \<Rightarrow> Inr s
                 | cur # rest \<Rightarrow>
                     insert_backup_values e userId t
                       (d_data_type cur) (d_content cur) (d_version cur) s) of
             Inl err \<Rightarrow> (InternalError ''Internal server error during deletion'', s)
           | Inr s1 \<Rightarrow>
               (case delete_user_data e userId t s1 of
                  Inl err \<Rightarrow> (InternalError ''Internal server error during deletion'', s)
                | Inr (s2, rowCount) \<Rightarrow>
                    (DeleteOk ''Data deleted successfully'',
                     commit s (updateStorageStats e userId (begin_txn s2))))))"

subsection \<open>\<open>GET /stats\<close>: Stats\<close>

definition select_stats :: "env \<Rightarrow> string \<Rightarrow> store \<Rightarrow> db_error + stats_row list" where
  "select_stats e u s =
     (if fails e SelectStats then Inl QueryFailed
      else Inr (filter (\<lambda>r. st_user_id r = u) (storage_stats s)))"

definition count_user_data :: "env \<Rightarrow> string \<Rightarrow> store \<Rightarrow> db_error + nat" where
  "count_user_data e u s =
     (if fails e CountUserData then Inl QueryFailed
      else Inr (length (filter (\<lambda>d. d_user_id d = u) (user_data s))))"

definition count_backups :: "env \<Rightarrow> string \<Rightarrow> store \<Rightarrow> db_error + nat" where
  "count_backups e u s =
     (if fails e CountBackups then Inl QueryFailed
      else Inr (length (filter (\<lambda>b. b_user_id b = u) (data_backups s))))"

definition stats :: "env \<Rightarrow> string \<Rightarrow> store \<Rightarrow> response \<times> store" where
  "stats e userId s =
     (case select_stats e userId s of
        Inl err \<Rightarrow> (InternalError ''Internal server error while retrieving stats'', s)
      | Inr rows \<Rightarrow>
          (case count_user_data e userId s of
             Inl err \<Rightarrow> (InternalError ''Internal server error while retrieving stats'', s)
           | Inr threadCount \<Rightarrow>
               (case count_backups e userId s of
                  Inl err \<Rightarrow> (InternalError ''Internal server error while retrieving stats'', s)
                | Inr backupCount \<Rightarrow>
                    (StatsOk (case rows of [] \<Rightarrow> None | r # rest \<Rightarrow> Some r)
                       threadCount backupCount, s))))"

subsection \<open>The router\<close>

text \<open>
  The routes in the order in which the module registers them on the router. A request
  goes to the first route whose method and path pattern match; each handler of this
  module sends a response and never calls \<open>next\<close>, so no later route sees the request.
  \<open>requireAuth\<close> runs first on the matched route and either passes a user on or sends its
  own response. A path is the list of its segments below the mount point; a parameter
  matches any non-empty segment, a literal matches without regard to the case of ASCII
  letters.
\<close>

datatype http_method = GET | POST | PUT | DELETE

datatype seg = Lit string | Param

datatype handler = SaveH | LoadH | HistoryH | RestoreH | DeleteH | StatsH

definition routes :: "(http_method \<times> seg list \<times> handler) list" where
  "routes =
     [(POST, [], SaveH),
      (GET, [Param], LoadH),
      (GET, [Param, Lit ''history''], HistoryH),
      (POST, [Param, Lit ''restore''], RestoreH),
      (DELETE, [Param], DeleteH),
      (GET, [Lit ''stats''], StatsH)]"

definition lower_char :: "char \<Rightarrow> char" where
  "lower_char c =
     (let n = (of_char c :: nat)
      in if 65 \<le> n \<and> n \<le> 90 then char_of (n + 32) else c)"

fun match_path :: "seg list \<Rightarrow> string list \<Rightarrow> string list option" where
  "match_path [] [] = Some []"
| "match_path (Lit l # ps) (x # xs) =
     (if map lower_char l = map lower_char x then match_path ps xs else None)"
| "match_path (Param # ps) (x # xs) =
     (if x = [] then None else map_option (\<lambda>params. x # params) (match_path ps xs))"
| "match_path ps xs = None"

fun find_route ::
  "(http_method \<times> seg list \<times> handler) list \<Rightarrow> http_method \<Rightarrow> string list \<Rightarrow>
     (handler \<times> string list) option" where
  "find_route [] m path = None"
| "find_route ((m', pat, h) # rs) m path =
     (if m' = m
      then (case match_path pat path of
              Some params \<Rightarrow> Some (h, params)
            | None \<Rightarrow> find_route rs m path)
      else find_route rs m path)"

datatype auth = Authenticated string | Rejected nat string

record request =
  r_method :: http_method
  r_path :: "string list"
  r_query_dataType :: "string option"
  r_query_limit :: "string option"
  r_body :: body

definition handle :: "env \<Rightarrow> auth \<Rightarrow> request \<Rightarrow> store \<Rightarrow> response \<times> store" where
  "handle e a req s =
     (case find_route routes (r_method req) (r_path req) of
        None \<Rightarrow> (RouteNotFound, s)
      | Some (h, params) \<Rightarrow>
          (case a of
             Rejected code msg \<Rightarrow> (AuthFailed code msg, s)
           | Authenticated userId \<Rightarrow>
               (case (h, params) of
                  (SaveH, []) \<Rightarrow> save e userId (r_body req) s
                | (LoadH, [t]) \<Rightarrow> load e userId t (r_query_dataType req) s
                | (HistoryH, [t]) \<Rightarrow> history e userId t (r_query_limit req) s
                | (RestoreH, [t]) \<Rightarrow> restore e userId t (r_body req) s
                | (DeleteH, [t]) \<Rightarrow> delete e userId t s
                | (StatsH, []) \<Rightarrow> stats e userId s
                | _ \<Rightarrow> (RouteNotFound, s))))"

section \<open>Notions used by the properties\<close>

text \<open>The store answers every statement of the request.\<close>

definition no_faults :: "env \<Rightarrow> bool" where
  "no_faults e \<longleftrightarrow> (\<forall>q. \<not> fails e q)"

text \<open>The same environment with a store that rejects nothing.\<close>

definition healthy :: "env \<Rightarrow> env" where
  "healthy e = e\<lparr>fails := (\<lambda>q. False)\<rparr>"

text \<open>
  The key on which the upserts resolve conflicts, \<open>(user_id, thread_id)\<close>, is unique
  among the current Documents.
\<close>

definition unique_threads :: "store \<Rightarrow> bool" where
  "unique_threads s \<longleftrightarrow> distinct (map (\<lambda>d. (d_user_id d, d_thread_id d)) (user_data s))"

text \<open>What a Backup captures of a Document, and what a Document holds.\<close>

definition backup_state :: "backup_row \<Rightarrow> string \<times> string \<times> string \<times> json \<times> int" where
  "backup_state b = (b_user_id b, b_thread_id b, b_data_type b, b_content b, b_version b)"

definition doc_state :: "doc_row \<Rightarrow> string \<times> string \<times> string \<times> json \<times> int" where
  "doc_state d = (d_user_id d, d_thread_id d, d_data_type d, d_content d, d_version d)"

text \<open>The Backup rows of \<open>s'\<close> beyond those of \<open>s\<close>.\<close>

definition new_backups :: "store \<Rightarrow> store \<Rightarrow> backup_row list" where
  "new_backups s s' = drop (length (data_backups s)) (data_backups s')"

text \<open>A Save request with every field supplied, and a sequence of such Saves on one thread.\<close>

definition save_request :: "string \<Rightarrow> string \<Rightarrow> json \<Rightarrow> int \<Rightarrow> bool \<Rightarrow> body" where
  "save_request t dt c v f =
     \<lparr>threadId = Some t, dataType = Some dt, content = Some c, version = Some v,
      force = Some f, backupId = None\<rparr>"

record save_call =
  sc_env :: env
  sc_dataType :: string
  sc_content :: json
  sc_version :: int
  sc_force :: bool

fun run_saves :: "string \<Rightarrow> string \<Rightarrow> save_call list \<Rightarrow> store \<Rightarrow> store" where
  "run_saves u t [] s = s"
| "run_saves u t (c # cs) s =
     run_saves u t cs
       (snd (save (sc_env c) u
               (save_request t (sc_dataType c) (sc_content c) (sc_version c) (sc_force c)) s))"

text \<open>Each call forces, or supplies a version not below the one stored before it.\<close>

fun versions_ok :: "int option \<Rightarrow> save_call list \<Rightarrow> bool" where
  "versions_ok stored [] = True"
| "versions_ok stored (c # cs) =
     ((sc_force c \<or> (case stored of None \<Rightarrow> True | Some v \<Rightarrow> v \<le> sc_version c))
      \<and> versions_ok (Some (sc_version c)) cs)"

definition stored_version :: "string \<Rightarrow> string \<Rightarrow> store \<Rightarrow> int option" where
  "stored_version u t s =
     (case filter (for_thread u t) (user_data s) of
        [] \<Rightarrow> None
      | d # rest \<Rightarrow> Some (d_version d))"

definition call_state ::
  "string \<Rightarrow> string \<Rightarrow> save_call \<Rightarrow> string \<times> string \<times> string \<times> json \<times> int" where
  "call_state u t c = (u, t, sc_dataType c, sc_content c, sc_version c)"

definition valid_call :: "save_call \<Rightarrow> bool" where
  "valid_call c \<longleftrightarrow>
     no_faults (sc_env c) \<and> sc_dataType c \<in> set valid_data_types \<and> truthy (sc_content c)"

subsection \<open>Concrete requests and stores\<close>

definition example_env :: env where
  "example_env =
     \<lparr>fails = (\<lambda>q. False), db_now = 20, js_now = 21, text_length = (\<lambda>c. 7),
      parseInt = (\<lambda>l. if l = ''3'' then Some 3 else None),
      jsonb_in = (\<lambda>x. if x = ''123'' then JNum 123 else JNull)\<rparr>"

definition doc_a :: doc_row where
  "doc_a =
     \<lparr>d_user_id = ''u1'', d_thread_id = ''t1'', d_data_type = ''document'',
      d_content = JObj [(''a'', JNum 5)], d_version = 5, d_updated_at = 10\<rparr>"

definition backup_a :: backup_row where
  "backup_a =
     \<lparr>b_id = 0, b_user_id = ''u1'', b_thread_id = ''t1'', b_data_type = ''document'',
      b_content = JObj [(''a'', JNum 1)], b_version = 1, b_created_at = 4\<rparr>"

text \<open>User \<open>u1\<close> has thread \<open>t1\<close> at version 5 and one backup of it, of version 1.\<close>

definition store_a :: store where
  "store_a = \<lparr>user_data = [doc_a], data_backups = [backup_a], storage_stats = [], backup_seq = 1\<rparr>"

definition stale_request :: body where
  "stale_request =
     \<lparr>threadId = Some ''t1'', dataType = Some ''document'',
      content = Some (JObj [(''a'', JNum 2)]), version = Some 1, force = None,
      backupId = None\<rparr>"

definition null_request :: body where
  "null_request =
     \<lparr>threadId = Some ''t1'', dataType = Some ''document'', content = Some JNull,
      version = Some 1, force = None, backupId = None\<rparr>"

definition newer_request :: body where
  "newer_request = save_request ''t1'' ''document'' (JObj [(''a'', JNum 6)]) 6 False"

definition restore_request :: body where
  "restore_request =
     \<lparr>threadId = None, dataType = None, content = None, version = None, force = None,
      backupId = Some 0\<rparr>"

text \<open>A Save of the empty array, and the store it leaves from the empty store.\<close>

definition list_request :: body where
  "list_request = save_request ''t1'' ''document'' (JArr []) 1 False"

definition store_list :: store where
  "store_list = snd (save example_env ''u1'' list_request empty_store)"

text \<open>The store rejects the upsert of the statistics and nothing else.\<close>

definition stats_down_env :: env where
  "stats_down_env = example_env\<lparr>fails := (\<lambda>q. q = UpsertStats)\<rparr>"

definition stats_request :: request where
  "stats_request =
     \<lparr>r_method = GET, r_path = [''stats''], r_query_dataType = None, r_query_limit = None,
      r_body = restore_request\<rparr>"

definition call_1 :: save_call where
  "call_1 =
     \<lparr>sc_env = example_env, sc_dataType = ''document'',
      sc_content = JObj [(''a'', JNum 1)], sc_version = 1, sc_force = False\<rparr>"

definition call_2 :: save_call where
  "call_2 =
     \<lparr>sc_env = example_env, sc_dataType = ''document'',
      sc_content = JObj [(''a'', JNum 2)], sc_version = 2, sc_force = False\<rparr>"

section \<open>Properties\<close>

subsection \<open>Save: the version conflict\<close>

lemma save_txn_not_conflict: "status (fst (save_txn e u t dt c v ex s)) \<noteq> 409"
  by (simp add: save_txn_def split: sum.splits)

text \<open>
  C1. A valid Save that finds a current Document for (user, thread), without force:
  when the stored version is strictly greater than the supplied one, the response is the
  Conflict with the stored version, content and timestamp, and the store is unchanged;
  when the two versions are equal, the response is not a Conflict. A Conflict is sent
  exactly when force is off and the stored version is strictly greater.
\<close>

theorem save_conflict_iff:
  assumes "threadId b = Some t" "t \<noteq> []" "dataType b = Some dt" "dt \<in> set valid_data_types"
    "content b = Some c" "truthy c" "\<not> fails e SelectUserData"
    "filter (for_thread u t) (user_data s) = existing # rest"
  shows "(\<not> req_force b \<and> d_version existing > req_version b \<longrightarrow>
           save e u b s =
             (Conflict (d_version existing) (d_content existing) (d_updated_at existing), s))
       \<and> (\<not> req_force b \<and> d_version existing = req_version b \<longrightarrow>
            status (fst (save e u b s)) \<noteq> 409)
       \<and> (status (fst (save e u b s)) = 409 \<longleftrightarrow>
            \<not> req_force b \<and> d_version existing > req_version b)"
proof -
  have dt: "dt \<noteq> []" using assms(4) by (auto simp: valid_data_types_def)
  have sc: "save e u b s = save_checked e u t dt c (req_version b) (req_force b) s"
    using assms dt by (simp add: save_def)
  have sel: "select_user_data e u t s = Inr (existing # rest)"
    using assms by (simp add: select_user_data_def)
  show ?thesis
    unfolding sc
    using assms(4) sel save_txn_not_conflict[of e u t dt c "req_version b" "existing # rest" s]
    by (auto simp: save_checked_def)
qed

theorem save_conflict_iff_witness:
  "threadId stale_request = Some ''t1'' \<and> dataType stale_request = Some ''document''
   \<and> \<not> fails example_env SelectUserData
   \<and> filter (for_thread ''u1'' ''t1'') (user_data store_a) = [doc_a]
   \<and> \<not> req_force stale_request \<and> d_version doc_a > req_version stale_request
   \<and> save example_env ''u1'' stale_request store_a =
       (Conflict 5 (JObj [(''a'', JNum 5)]) 10, store_a)"
  using save_conflict_iff[of stale_request "''t1''" "''document''" "JObj [(''a'', JNum 2)]"
          example_env "''u1''" store_a doc_a "[]"]
  by (simp add: stale_request_def example_env_def store_a_def doc_a_def for_thread_def
        valid_data_types_def req_force_def req_version_def)

subsection \<open>Save: presence checks\<close>

text \<open>
  C10. A Save whose content is supplied but falsy (\<open>null\<close>, \<open>false\<close>, \<open>0\<close> or the empty
  string), or whose threadId is the empty string, is answered 400 for a missing field,
  and the store is unchanged.
\<close>

theorem save_rejects_falsy:
  "content b \<in> {Some JNull, Some (JBool False), Some (JNum 0), Some (JStr [])}
     \<or> threadId b = Some []
   \<Longrightarrow> save e u b s =
         (BadRequest ''Missing required fields: threadId, dataType, content'', s)"
  by (auto simp: save_def split: option.splits)

theorem save_rejects_falsy_witness:
  "content null_request = Some JNull
   \<and> save example_env ''u1'' null_request store_a =
       (BadRequest ''Missing required fields: threadId, dataType, content'', store_a)"
  using save_rejects_falsy[of null_request example_env "''u1''" store_a]
  by (simp add: null_request_def)

subsection \<open>Load\<close>

text \<open>
  C7. For valid dataType values the result of Load does not depend on the dataType (nor
  on its being left out); with a valid dataType and an answering store, Load responds
  404 exactly when no current Document row exists for (user, thread); an invalid
  dataType is answered 400 whatever the store holds.
\<close>

theorem load_ignores_dataType:
  "(dt \<in> set valid_data_types \<and> dt' \<in> set valid_data_types \<longrightarrow>
      load e u t (Some dt) s = load e u t (Some dt') s
      \<and> load e u t (Some dt) s = load e u t None s)
   \<and> (dt \<in> set valid_data_types \<and> \<not> fails e SelectUserData \<longrightarrow>
        (status (fst (load e u t (Some dt) s)) = 404 \<longleftrightarrow>
           filter (for_thread u t) (user_data s) = []))
   \<and> (dt \<notin> set valid_data_types \<longrightarrow>
        load e u t (Some dt) s =
          (BadRequest ''Invalid dataType. Must be: spreadsheet, document, or both'', s))"
  by (auto simp: load_def select_user_data_def valid_data_types_def split: list.splits)

theorem load_ignores_dataType_witness:
  "''spreadsheet'' \<in> set valid_data_types \<and> ''document'' \<in> set valid_data_types
   \<and> \<not> fails example_env SelectUserData
   \<and> load example_env ''u1'' ''t1'' (Some ''spreadsheet'') store_a =
       load example_env ''u1'' ''t1'' (Some ''document'') store_a
   \<and> status (fst (load example_env ''u1'' ''t1'' (Some ''spreadsheet'') store_a)) \<noteq> 404
   \<and> filter (for_thread ''u1'' ''t1'') (user_data store_a) \<noteq> []
   \<and> ''sheet'' \<notin> set valid_data_types
   \<and> load example_env ''u1'' ''t1'' (Some ''sheet'') store_a =
       (BadRequest ''Invalid dataType. Must be: spreadsheet, document, or both'', store_a)"
proof -
  have v: "''spreadsheet'' \<in> set valid_data_types" "''document'' \<in> set valid_data_types"
    "''sheet'' \<notin> set valid_data_types"
    by (simp_all add: valid_data_types_def)
  have f: "\<not> fails example_env SelectUserData" by (simp add: example_env_def)
  have r: "filter (for_thread ''u1'' ''t1'') (user_data store_a) \<noteq> []"
    by (simp add: store_a_def doc_a_def for_thread_def)
  show ?thesis
    using v f r
      load_ignores_dataType[of "''spreadsheet''" "''document''" example_env "''u1''" "''t1''" store_a]
      load_ignores_dataType[of "''sheet''" "''document''" example_env "''u1''" "''t1''" store_a]
    by blast
qed

subsection \<open>History\<close>

text \<open>
  C9. History never responds 404, whatever the user, the thread, the limit and the
  store. When the store answers both queries (in particular the limit parses to a
  non-negative integer) and holds neither a Document nor a Backup for (user, thread),
  the response is the success with \<open>current\<close> null and an empty history.
\<close>

theorem history_never_not_found:
  "status (fst (history e u t lq s)) \<noteq> 404
   \<and> (\<not> fails e SelectUserData \<and> \<not> fails e SelectBackups
        \<and> (case lq of None \<Rightarrow> True
            | Some l \<Rightarrow> (case parseInt e l of None \<Rightarrow> False | Some n \<Rightarrow> 0 \<le> n))
        \<and> filter (for_thread u t) (user_data s) = []
        \<and> filter (\<lambda>b. b_user_id b = u \<and> b_thread_id b = t) (data_backups s) = []
      \<longrightarrow> history e u t lq s = (HistoryOk None [], s))"
  by (auto simp: history_def select_user_data_def select_backups_def
           split: sum.splits option.splits list.splits)

theorem history_never_not_found_witness:
  "\<not> fails example_env SelectUserData \<and> \<not> fails example_env SelectBackups
   \<and> parseInt example_env ''3'' = Some 3
   \<and> filter (for_thread ''u2'' ''never'') (user_data store_a) = []
   \<and> filter (\<lambda>b. b_user_id b = ''u2'' \<and> b_thread_id b = ''never'') (data_backups store_a) = []
   \<and> history example_env ''u2'' ''never'' (Some ''3'') store_a = (HistoryOk None [], store_a)"
  using history_never_not_found[of example_env "''u2''" "''never''" "Some ''3''" store_a]
  by (simp add: example_env_def store_a_def doc_a_def backup_a_def for_thread_def)

subsection \<open>The tables after a transaction\<close>

lemma filter_key_le1:
  "distinct (map k xs) \<Longrightarrow> length (filter (\<lambda>d. k d = a) xs) \<le> 1"
  by (induction xs) (auto simp: filter_empty_conv image_iff)

lemma for_thread_key: "for_thread u t = (\<lambda>d. (d_user_id d, d_thread_id d) = (u, t))"
  by (auto simp: for_thread_def fun_eq_iff)

lemma unique_threads_le1:
  "unique_threads s \<Longrightarrow> length (filter (for_thread u t) (user_data s)) \<le> 1"
  unfolding unique_threads_def for_thread_key by (rule filter_key_le1)

lemma unique_threads_cases:
  assumes "unique_threads s"
  obtains "filter (for_thread u t) (user_data s) = []"
  | d where "filter (for_thread u t) (user_data s) = [d]"
proof -
  have "length (filter (for_thread u t) (user_data s)) \<le> 1"
    using assms by (rule unique_threads_le1)
  then show thesis using that
    by (cases "filter (for_thread u t) (user_data s)") (auto simp: le_Suc_eq)
qed

lemma stats_commit:
  "commit s (updateStorageStats e u (begin_txn s2)) =
     (if fails e SelectSize \<or> fails e UpsertStats then s
      else (case upsert_stats e u
                   (sum_list (map (\<lambda>d. text_length e (d_content d))
                                  (filter (\<lambda>d. d_user_id d = u) (user_data s2))))
                   (length (filter (\<lambda>d. d_user_id d = u) (user_data s2))) s2 of
              Inr s3 \<Rightarrow> s3 | Inl err \<Rightarrow> s))"
  by (simp add: commit_def updateStorageStats_def begin_txn_def select_size_def upsert_stats_def Let_def)

lemma upsert_stats_tables:
  "upsert_stats e u a b s2 = Inr s3 \<Longrightarrow>
     user_data s3 = user_data s2 \<and> data_backups s3 = data_backups s2 \<and> backup_seq s3 = backup_seq s2"
  by (auto simp: upsert_stats_def split: if_splits)

lemma stats_commit_tables:
  assumes "\<not> fails e SelectSize" "\<not> fails e UpsertStats"
  shows "user_data (commit s (updateStorageStats e u (begin_txn s2))) = user_data s2"
    and "data_backups (commit s (updateStorageStats e u (begin_txn s2))) = data_backups s2"
    and "backup_seq (commit s (updateStorageStats e u (begin_txn s2))) = backup_seq s2"
  using assms by (auto simp: stats_commit upsert_stats_def)

lemma upsert_user_data:
  "\<not> fails e UpsertUserData \<Longrightarrow> \<exists>s'. upsert e u t dt c v vup s = Inr s'
     \<and> data_backups s' = data_backups s \<and> backup_seq s' = backup_seq s \<and> storage_stats s' = storage_stats s
     \<and> user_data s' =
        (if filter (for_thread u t) (user_data s) \<noteq> []
         then map (\<lambda>d. if for_thread u t d
                        then d\<lparr>d_data_type := dt, d_content := c, d_version := vup, d_updated_at := db_now e\<rparr>
                        else d) (user_data s)
         else user_data s @ [\<lparr>d_user_id = u, d_thread_id = t, d_data_type = dt, d_content = c,
                       d_version = v, d_updated_at = db_now e\<rparr>])"
  by (auto simp: upsert_def filter_empty_conv)

lemma filter_map_upd:
  assumes "\<And>d. P (g d) = P d"
  shows "filter P (map (\<lambda>d. if P d then g d else d) xs) = map g (filter P xs)"
  using assms by (induction xs) auto

lemma upsert_filter:
  assumes "upsert e u t dt c v vup s = Inr s'" "unique_threads s"
  shows "filter (for_thread u t) (user_data s') =
           [\<lparr>d_user_id = u, d_thread_id = t, d_data_type = dt, d_content = c,
             d_version = (if filter (for_thread u t) (user_data s) \<noteq> [] then vup else v),
             d_updated_at = db_now e\<rparr>]"
proof (rule unique_threads_cases[OF assms(2), of u t])
  assume emp: "filter (for_thread u t) (user_data s) = []"
  then have "\<not> (\<exists>d \<in> set (user_data s). for_thread u t d)" by (simp add: filter_empty_conv)
  then show ?thesis using assms(1) emp
    by (auto simp: upsert_def for_thread_def split: if_splits)
next
  fix d assume one: "filter (for_thread u t) (user_data s) = [d]"
  then have ex: "\<exists>d \<in> set (user_data s). for_thread u t d"
    by (metis filter_empty_conv list.discI)
  have d: "for_thread u t d" using one by (metis Cons_eq_filterD)
  have "filter (for_thread u t) (map (\<lambda>d. if for_thread u t d
                        then d\<lparr>d_data_type := dt, d_content := c, d_version := vup, d_updated_at := db_now e\<rparr>
                        else d) (user_data s)) = map (\<lambda>d. d\<lparr>d_data_type := dt, d_content := c, d_version := vup, d_updated_at := db_now e\<rparr>) (filter (for_thread u t) (user_data s))"
    by (rule filter_map_upd) (simp add: for_thread_def)
  then show ?thesis using assms(1) ex one d
    by (auto simp: upsert_def for_thread_def split: if_splits)
qed

lemma upsert_unique:
  assumes "upsert e u t dt c v vup s = Inr s'" "unique_threads s"
  shows "unique_threads s'"
proof (cases "\<exists>d \<in> set (user_data s). for_thread u t d")
  case True
  have "(\<lambda>d. (d_user_id d, d_thread_id d)) \<circ> (\<lambda>d. if for_thread u t d
                        then d\<lparr>d_data_type := dt, d_content := c, d_version := vup, d_updated_at := db_now e\<rparr>
                        else d) = (\<lambda>d. (d_user_id d, d_thread_id d))"
    by (auto simp: fun_eq_iff)
  then show ?thesis using assms True
    by (auto simp: upsert_def unique_threads_def split: if_splits)
next
  case False
  then show ?thesis using assms
    by (auto simp: upsert_def unique_threads_def for_thread_def split: if_splits)
qed


lemma insert_backup_select_ok:
  assumes "\<not> fails e InsertBackup" "unique_threads s"
  shows "\<exists>s1. insert_backup_select e u t s = Inr s1 \<and> user_data s1 = user_data s
           \<and> data_backups s1 = data_backups s @
                map (\<lambda>d. backup_of (backup_seq s) (d_updated_at d) d) (filter (for_thread u t) (user_data s))"
proof (rule unique_threads_cases[OF assms(2), of u t])
  assume "filter (for_thread u t) (user_data s) = []"
  then show ?thesis using assms(1) by (simp add: insert_backup_select_def)
next
  fix d assume "filter (for_thread u t) (user_data s) = [d]"
  then show ?thesis using assms(1) by (simp add: insert_backup_select_def)
qed

lemma save_txn_ok:
  assumes nf: "no_faults e" and uniq: "unique_threads s"
    and ex: "ex = filter (for_thread u t) (user_data s)"
  shows "\<exists>s'. save_txn e u t dt c v ex s = (SaveOk v (js_now e), s') \<and> unique_threads s'
           \<and> filter (for_thread u t) (user_data s') =
               [\<lparr>d_user_id = u, d_thread_id = t, d_data_type = dt, d_content = c,
                 d_version = v, d_updated_at = db_now e\<rparr>]
           \<and> data_backups s' = data_backups s @
               map (\<lambda>d. backup_of (backup_seq s) (d_updated_at d) d) ex"
proof -
  have f: "\<not> fails e InsertBackup" "\<not> fails e UpsertUserData" "\<not> fails e SelectSize" "\<not> fails e UpsertStats"
    using nf by (simp_all add: no_faults_def)
  obtain s1 where s1: "(if ex \<noteq> [] then insert_backup_select e u t s else Inr s) = Inr s1"
      "user_data s1 = user_data s"
      "data_backups s1 = data_backups s @ map (\<lambda>d. backup_of (backup_seq s) (d_updated_at d) d) ex"
    using insert_backup_select_ok[OF f(1) uniq, of u t] ex by (cases "ex = []") auto
  obtain s2 where s2: "upsert e u t dt c v v s1 = Inr s2" "data_backups s2 = data_backups s1"
    using upsert_user_data[OF f(2), of u t dt c v v s1] by blast
  have u1: "unique_threads s1" using uniq s1(2) by (simp add: unique_threads_def)
  have u2: "unique_threads s2" using upsert_unique[OF s2(1) u1] .
  have fl: "filter (for_thread u t) (user_data s2) =
               [\<lparr>d_user_id = u, d_thread_id = t, d_data_type = dt, d_content = c,
                 d_version = v, d_updated_at = db_now e\<rparr>]"
    using upsert_filter[OF s2(1) u1] by simp
  let ?s' = "commit s (updateStorageStats e u (begin_txn s2))"
  have r: "save_txn e u t dt c v ex s = (SaveOk v (js_now e), ?s')"
    using s1(1) s2(1) by (simp add: save_txn_def upsert_user_data_def)
  have t: "user_data ?s' = user_data s2" "data_backups ?s' = data_backups s2"
    using stats_commit_tables[OF f(3) f(4)] by simp_all
  have u3: "unique_threads ?s'" using u2 t(1) by (simp add: unique_threads_def)
  show ?thesis using r t u3 fl s2(2) s1(3) by simp
qed

lemma save_step:
  assumes nf: "no_faults e" and uniq: "unique_threads s"
    and valid: "t \<noteq> []" "dt \<in> set valid_data_types" "truthy c"
    and acc: "case filter (for_thread u t) (user_data s) of [] \<Rightarrow> True | d # rest \<Rightarrow> f \<or> d_version d \<le> v"
  shows "\<exists>s'. save e u (save_request t dt c v f) s = (SaveOk v (js_now e), s') \<and> unique_threads s'
           \<and> filter (for_thread u t) (user_data s') =
               [\<lparr>d_user_id = u, d_thread_id = t, d_data_type = dt, d_content = c,
                 d_version = v, d_updated_at = db_now e\<rparr>]
           \<and> data_backups s' = data_backups s @
               map (\<lambda>d. backup_of (backup_seq s) (d_updated_at d) d) (filter (for_thread u t) (user_data s))"
proof -
  have dt: "dt \<noteq> []" using valid(2) by (auto simp: valid_data_types_def)
  have sel: "select_user_data e u t s = Inr (filter (for_thread u t) (user_data s))"
    using nf by (simp add: select_user_data_def no_faults_def)
  have "save e u (save_request t dt c v f) s =
          save_txn e u t dt c v (filter (for_thread u t) (user_data s)) s"
    using valid dt sel acc
    apply (simp add: save_def save_request_def req_version_def req_force_def)
    apply (auto simp: save_checked_def split: list.splits)
    done
  then show ?thesis using save_txn_ok[OF nf uniq refl, of u t dt c v] by simp
qed

lemma restore_step:
  assumes nf: "no_faults e" and uniq: "unique_threads s"
    and bid: "backupId b = Some i"
    and found: "filter (\<lambda>bk. b_id bk = i \<and> b_user_id bk = u) (data_backups s) = bk # rest"
  shows "\<exists>s'. restore e u t b s = (RestoreOk (b_version bk) (js_now e), s') \<and> unique_threads s'
           \<and> filter (for_thread u t) (user_data s') =
               [\<lparr>d_user_id = u, d_thread_id = t, d_data_type = b_data_type bk,
                 d_content = pg_param e (b_content bk),
                 d_version = (if filter (for_thread u t) (user_data s) \<noteq> []
                              then b_version bk + 1 else b_version bk),
                 d_updated_at = db_now e\<rparr>]
           \<and> data_backups s' = data_backups s @
               map (\<lambda>d. backup_of (backup_seq s) (db_now e) (d\<lparr>d_content := pg_param e (d_content d)\<rparr>))
                 (filter (for_thread u t) (user_data s))"
proof -
  have f: "\<not> fails e SelectBackupById" "\<not> fails e SelectUserData" "\<not> fails e InsertBackup"
    "\<not> fails e UpsertUserData" "\<not> fails e SelectSize" "\<not> fails e UpsertStats"
    using nf by (simp_all add: no_faults_def)
  let ?docs = "filter (for_thread u t) (user_data s)"
  have r0: "restore e u t b s = restore_txn e u t bk s"
    using bid found f(1) by (simp add: restore_def select_backup_by_id_def)
  obtain s1 where s1:
      "(case ?docs of [] \<Rightarrow> Inr s
        | cur # rest \<Rightarrow> insert_backup_values e u t (d_data_type cur) (d_content cur) (d_version cur) s)
       = Inr s1"
      "user_data s1 = user_data s"
      "data_backups s1 = data_backups s @
         map (\<lambda>d. backup_of (backup_seq s) (db_now e) (d\<lparr>d_content := pg_param e (d_content d)\<rparr>)) ?docs"
  proof (rule unique_threads_cases[OF uniq, of u t])
    assume "?docs = []"
    then show thesis using that[of s] by simp
  next
    fix d assume d: "?docs = [d]"
    then have "for_thread u t d" by (metis Cons_eq_filterD)
    then show thesis
      using that[of "s\<lparr>data_backups := data_backups s @
                         [backup_of (backup_seq s) (db_now e) (d\<lparr>d_content := pg_param e (d_content d)\<rparr>)],
                       backup_seq := Suc (backup_seq s)\<rparr>"] d f(3)
      by (simp add: insert_backup_values_def backup_of_def for_thread_def)
  qed
  obtain s2 where s2: "upsert e u t (b_data_type bk) (pg_param e (b_content bk)) (b_version bk) (b_version bk + 1) s1 = Inr s2"
      "data_backups s2 = data_backups s1"
    using upsert_user_data[OF f(4), of u t "b_data_type bk" "pg_param e (b_content bk)" "b_version bk" "b_version bk + 1" s1]
    by blast
  have u1: "unique_threads s1" using uniq s1(2) by (simp add: unique_threads_def)
  have u2: "unique_threads s2" using upsert_unique[OF s2(1) u1] .
  have fl: "filter (for_thread u t) (user_data s2) =
               [\<lparr>d_user_id = u, d_thread_id = t, d_data_type = b_data_type bk,
                 d_content = pg_param e (b_content bk),
                 d_version = (if ?docs \<noteq> [] then b_version bk + 1 else b_version bk),
                 d_updated_at = db_now e\<rparr>]"
    using upsert_filter[OF s2(1) u1] s1(2) by simp
  let ?s' = "commit s (updateStorageStats e u (begin_txn s2))"
  have r: "restore_txn e u t bk s = (RestoreOk (b_version bk) (js_now e), ?s')"
    using s1(1) s2(1) f(2)
    by (simp add: restore_txn_def upsert_user_data_restore_def select_user_data_def)
  have t: "user_data ?s' = user_data s2" "data_backups ?s' = data_backups s2"
    using stats_commit_tables[OF f(5) f(6)] by simp_all
  have u3: "unique_threads ?s'" using u2 t(1) by (simp add: unique_threads_def)
  show ?thesis using r0 r t u3 fl s2(2) s1(3) by simp
qed

lemma delete_step:
  assumes nf: "no_faults e" and uniq: "unique_threads s"
  shows "\<exists>s'. delete e u t s = (DeleteOk ''Data deleted successfully'', s') \<and> unique_threads s'
           \<and> filter (for_thread u t) (user_data s') = []
           \<and> data_backups s' = data_backups s @
               map (\<lambda>d. backup_of (backup_seq s) (db_now e) (d\<lparr>d_content := pg_param e (d_content d)\<rparr>))
                 (filter (for_thread u t) (user_data s))"
proof -
  have f: "\<not> fails e SelectUserData" "\<not> fails e InsertBackup"
    "\<not> fails e DeleteUserData" "\<not> fails e SelectSize" "\<not> fails e UpsertStats"
    using nf by (simp_all add: no_faults_def)
  let ?docs = "filter (for_thread u t) (user_data s)"
  obtain s1 where s1:
      "(case ?docs of [] \<Rightarrow> Inr s
        | cur # rest \<Rightarrow> insert_backup_values e u t (d_data_type cur) (d_content cur) (d_version cur) s)
       = Inr s1"
      "user_data s1 = user_data s"
      "data_backups s1 = data_backups s @
         map (\<lambda>d. backup_of (backup_seq s) (db_now e) (d\<lparr>d_content := pg_param e (d_content d)\<rparr>)) ?docs"
  proof (rule unique_threads_cases[OF uniq, of u t])
    assume "?docs = []"
    then show thesis using that[of s] by simp
  next
    fix d assume d: "?docs = [d]"
    then have "for_thread u t d" by (metis Cons_eq_filterD)
    then show thesis
      using that[of "s\<lparr>data_backups := data_backups s @
                         [backup_of (backup_seq s) (db_now e) (d\<lparr>d_content := pg_param e (d_content d)\<rparr>)],
                       backup_seq := Suc (backup_seq s)\<rparr>"] d f(2)
      by (simp add: insert_backup_values_def backup_of_def for_thread_def)
  qed
  let ?s2 = "s1\<lparr>user_data := filter (\<lambda>d. \<not> for_thread u t d) (user_data s1)\<rparr>"
  let ?s' = "commit s (updateStorageStats e u (begin_txn ?s2))"
  have r: "delete e u t s = (DeleteOk ''Data deleted successfully'', ?s')"
    using s1(1) f(1) f(3)
    by (simp add: delete_def delete_user_data_def select_user_data_def)
  have t: "user_data ?s' = user_data ?s2" "data_backups ?s' = data_backups ?s2"
    using stats_commit_tables[OF f(4) f(5)] by simp_all
  have u3: "unique_threads ?s'"
    using uniq t(1) s1(2) by (simp add: unique_threads_def distinct_map_filter)
  show ?thesis using r t u3 s1(3) by simp
qed

lemma backup_state_of [simp]: "backup_state (backup_of i ts d) = doc_state d"
  by (simp add: backup_state_def backup_of_def doc_state_def)

lemma run_saves_log:
  assumes "unique_threads s" "t \<noteq> []" "\<forall>c \<in> set cs. valid_call c"
    "versions_ok (stored_version u t s) cs"
  shows "\<exists>bks. data_backups (run_saves u t cs s) = data_backups s @ bks
           \<and> map backup_state bks =
               butlast (map doc_state (filter (for_thread u t) (user_data s)) @ map (call_state u t) cs)
           \<and> map doc_state (filter (for_thread u t) (user_data (run_saves u t cs s))) =
               (if filter (for_thread u t) (user_data s) = [] \<and> cs = [] then []
                else [last (map doc_state (filter (for_thread u t) (user_data s)) @ map (call_state u t) cs)])"
  using assms
proof (induction cs arbitrary: s)
  case Nil
  show ?case
    by (rule unique_threads_cases[OF Nil(1), of u t]) simp_all
next
  case (Cons c cs)
  let ?docs = "filter (for_thread u t) (user_data s)"
  let ?b = "save_request t (sc_dataType c) (sc_content c) (sc_version c) (sc_force c)"
  have vc: "no_faults (sc_env c)" "sc_dataType c \<in> set valid_data_types" "truthy (sc_content c)"
    using Cons.prems(3) by (simp_all add: valid_call_def)
  have acc: "case ?docs of [] \<Rightarrow> True | d # rest \<Rightarrow> sc_force c \<or> d_version d \<le> sc_version c"
    using Cons.prems(4) by (auto simp: stored_version_def split: list.splits)
  obtain s1 where s1: "save (sc_env c) u ?b s = (SaveOk (sc_version c) (js_now (sc_env c)), s1)"
      "unique_threads s1"
      "filter (for_thread u t) (user_data s1) =
         [\<lparr>d_user_id = u, d_thread_id = t, d_data_type = sc_dataType c, d_content = sc_content c,
           d_version = sc_version c, d_updated_at = db_now (sc_env c)\<rparr>]"
      "data_backups s1 = data_backups s @
         map (\<lambda>d. backup_of (backup_seq s) (d_updated_at d) d) ?docs"
    using save_step[OF vc(1) Cons.prems(1) Cons.prems(2) vc(2) vc(3) acc] by blast
  have sv: "stored_version u t s1 = Some (sc_version c)"
    using s1(3) by (simp add: stored_version_def)
  have ok: "versions_ok (stored_version u t s1) cs"
    using Cons.prems(4) sv by simp
  have vs: "\<forall>c \<in> set cs. valid_call c" using Cons.prems(3) by simp
  obtain bks where bks: "data_backups (run_saves u t cs s1) = data_backups s1 @ bks"
      "map backup_state bks =
         butlast (map doc_state (filter (for_thread u t) (user_data s1)) @ map (call_state u t) cs)"
      and bks3: "map doc_state (filter (for_thread u t) (user_data (run_saves u t cs s1))) =
         (if filter (for_thread u t) (user_data s1) = [] \<and> cs = [] then []
          else [last (map doc_state (filter (for_thread u t) (user_data s1)) @ map (call_state u t) cs)])"
    using Cons.IH[OF s1(2) Cons.prems(2) vs ok] by (elim exE conjE)
  have ne: "filter (for_thread u t) (user_data s1) \<noteq> []" using s1(3) by simp
  have bks4: "map doc_state (filter (for_thread u t) (user_data (run_saves u t cs s1))) =
         [last (map doc_state (filter (for_thread u t) (user_data s1)) @ map (call_state u t) cs)]"
    using bks3 by (simp only: ne simp_thms if_False)
  have st: "map doc_state (filter (for_thread u t) (user_data s1)) = [call_state u t c]"
    using s1(3) by (simp add: doc_state_def call_state_def)
  have run: "run_saves u t (c # cs) s = run_saves u t cs s1"
    using s1(1) by simp
  let ?new = "map (\<lambda>d. backup_of (backup_seq s) (d_updated_at d) d) ?docs @ bks"
  have a: "data_backups (run_saves u t (c # cs) s) = data_backups s @ ?new"
    using run bks(1) s1(4) by simp
  have b: "map backup_state ?new = butlast (map doc_state ?docs @ map (call_state u t) (c # cs))"
    using bks(2) st by (simp add: butlast_append comp_def)
  have d: "map doc_state (filter (for_thread u t) (user_data (run_saves u t (c # cs) s))) =
             [last (map doc_state ?docs @ map (call_state u t) (c # cs))]"
    using run bks4 st by simp
  show ?case
  proof (intro exI conjI)
    show "data_backups (run_saves u t (c # cs) s) = data_backups s @ ?new" by (rule a)
    show "map backup_state ?new = butlast (map doc_state ?docs @ map (call_state u t) (c # cs))"
      by (rule b)
    show "map doc_state (filter (for_thread u t) (user_data (run_saves u t (c # cs) s))) =
            (if ?docs = [] \<and> c # cs = [] then []
             else [last (map doc_state ?docs @ map (call_state u t) (c # cs))])"
      by (simp only: d list.distinct simp_thms if_False)
  qed
qed

lemma example_env_no_faults: "no_faults example_env"
  by (simp add: no_faults_def example_env_def)

lemma store_a_unique: "unique_threads store_a"
  by (simp add: unique_threads_def store_a_def)

lemma empty_store_unique: "unique_threads empty_store"
  by (simp add: unique_threads_def empty_store_def)

lemma store_a_backup_0:
  "filter (\<lambda>bk. b_id bk = 0 \<and> b_user_id bk = ''u1'') (data_backups store_a) = [backup_a]"
  by (simp add: store_a_def backup_a_def)

lemma store_a_thread_t1: "filter (for_thread ''u1'' ''t1'') (user_data store_a) = [doc_a]"
  by (simp add: store_a_def doc_a_def for_thread_def)

lemma store_a_thread_t9: "filter (for_thread ''u1'' ''t9'') (user_data store_a) = []"
  by (simp add: store_a_def doc_a_def for_thread_def)

subsection \<open>Backups as an undo log\<close>

text \<open>
  In a store with at most one current Document per (user, thread), and with the store
  answering every statement: a Save appends to the backups exactly one row for the
  Document it finds for (user, thread), holding its content, version and data type, and
  none when there is no such Document; and after a non-empty sequence of Saves on one
  thread, each forced or with a version not below the stored one, the stored content is
  that of the last call and the new backups hold, in order, every state that was
  overwritten.
\<close>

lemma saves_form_undo_log:
  assumes "unique_threads s"
  shows "length (filter (for_thread u t) (user_data s)) \<le> 1
     \<and> (no_faults e \<and> t \<noteq> [] \<and> dt \<in> set valid_data_types \<and> truthy c
          \<and> (case filter (for_thread u t) (user_data s) of
                [] \<Rightarrow> True | d # rest \<Rightarrow> f \<or> d_version d \<le> v)
        \<longrightarrow> fst (save e u (save_request t dt c v f) s) = SaveOk v (js_now e)
            \<and> unique_threads (snd (save e u (save_request t dt c v f) s))
            \<and> data_backups (snd (save e u (save_request t dt c v f) s)) =
                data_backups s @
                  map (\<lambda>d. backup_of (backup_seq s) (d_updated_at d) d)
                    (filter (for_thread u t) (user_data s)))
     \<and> (t \<noteq> [] \<and> cs \<noteq> [] \<and> (\<forall>c \<in> set cs. valid_call c)
          \<and> versions_ok (stored_version u t s) cs
        \<longrightarrow> map d_content (filter (for_thread u t) (user_data (run_saves u t cs s))) =
              [sc_content (last cs)]
            \<and> data_backups (run_saves u t cs s) =
                data_backups s @ new_backups s (run_saves u t cs s)
            \<and> map backup_state (new_backups s (run_saves u t cs s)) =
                butlast (map doc_state (filter (for_thread u t) (user_data s))
                         @ map (call_state u t) cs))"
proof (intro conjI impI)
  show "length (filter (for_thread u t) (user_data s)) \<le> 1"
    using assms by (rule unique_threads_le1)
next
  assume h: "no_faults e \<and> t \<noteq> [] \<and> dt \<in> set valid_data_types \<and> truthy c
          \<and> (case filter (for_thread u t) (user_data s) of
                [] \<Rightarrow> True | d # rest \<Rightarrow> f \<or> d_version d \<le> v)"
  then obtain s' where s': "save e u (save_request t dt c v f) s = (SaveOk v (js_now e), s')"
      "unique_threads s'"
      "data_backups s' = data_backups s @
               map (\<lambda>d. backup_of (backup_seq s) (d_updated_at d) d) (filter (for_thread u t) (user_data s))"
    using save_step[where e=e and s=s and t=t and dt=dt and c=c and u=u and f=f and v=v] assms by blast
  show "fst (save e u (save_request t dt c v f) s) = SaveOk v (js_now e)"
    by (simp add: s'(1))
  show "unique_threads (snd (save e u (save_request t dt c v f) s))"
    by (simp add: s'(1) s'(2))
  show "data_backups (snd (save e u (save_request t dt c v f) s)) =
                data_backups s @
                  map (\<lambda>d. backup_of (backup_seq s) (d_updated_at d) d)
                    (filter (for_thread u t) (user_data s))"
    by (simp add: s'(1) s'(3))
next
  assume h: "t \<noteq> [] \<and> cs \<noteq> [] \<and> (\<forall>c \<in> set cs. valid_call c)
          \<and> versions_ok (stored_version u t s) cs"
  then have ne: "cs \<noteq> []" and t: "t \<noteq> []" and vs: "\<forall>c \<in> set cs. valid_call c"
    and ok: "versions_ok (stored_version u t s) cs" by simp_all
  obtain bks where bks: "data_backups (run_saves u t cs s) = data_backups s @ bks"
      "map backup_state bks =
         butlast (map doc_state (filter (for_thread u t) (user_data s)) @ map (call_state u t) cs)"
      and fin: "map doc_state (filter (for_thread u t) (user_data (run_saves u t cs s))) =
         (if filter (for_thread u t) (user_data s) = [] \<and> cs = [] then []
          else [last (map doc_state (filter (for_thread u t) (user_data s)) @ map (call_state u t) cs)])"
    using run_saves_log[OF assms t vs ok] by (elim exE conjE)
  have nb: "new_backups s (run_saves u t cs s) = bks"
    by (simp add: new_backups_def bks(1))
  have fin2: "map doc_state (filter (for_thread u t) (user_data (run_saves u t cs s))) =
         [call_state u t (last cs)]"
    using fin ne by (simp add: last_map)
  have "map (\<lambda>d. fst (snd (snd (snd (doc_state d)))))
          (filter (for_thread u t) (user_data (run_saves u t cs s))) =
        [fst (snd (snd (snd (call_state u t (last cs)))))]"
    using arg_cong[OF fin2, of "map (\<lambda>x. fst (snd (snd (snd x))))"] by (simp add: comp_def)
  then show "map d_content (filter (for_thread u t) (user_data (run_saves u t cs s))) =
              [sc_content (last cs)]"
    by (simp add: doc_state_def call_state_def)
  show "data_backups (run_saves u t cs s) = data_backups s @ new_backups s (run_saves u t cs s)"
    using bks(1) nb by simp
  show "map backup_state (new_backups s (run_saves u t cs s)) =
                butlast (map doc_state (filter (for_thread u t) (user_data s))
                         @ map (call_state u t) cs)"
    using bks(2) nb by simp
qed

lemma saves_form_undo_log_example:
  "unique_threads empty_store \<and> valid_call call_1 \<and> valid_call call_2
   \<and> versions_ok (stored_version ''u1'' ''t1'' empty_store) [call_1, call_2]
   \<and> map d_content (filter (for_thread ''u1'' ''t1'')
        (user_data (run_saves ''u1'' ''t1'' [call_1, call_2] empty_store))) =
        [JObj [(''a'', JNum 2)]]
   \<and> map backup_state
        (new_backups empty_store (run_saves ''u1'' ''t1'' [call_1, call_2] empty_store)) =
        [(''u1'', ''t1'', ''document'', JObj [(''a'', JNum 1)], 1)]"
proof -
  have v: "valid_call call_1" "valid_call call_2"
    using example_env_no_faults
    by (simp_all add: valid_call_def call_1_def call_2_def valid_data_types_def)
  have e: "filter (for_thread ''u1'' ''t1'') (user_data empty_store) = []"
    by (simp add: empty_store_def)
  have ok: "versions_ok (stored_version ''u1'' ''t1'' empty_store) [call_1, call_2]"
    by (simp add: stored_version_def e call_1_def call_2_def)
  have h: "''t1'' \<noteq> [] \<and> [call_1, call_2] \<noteq> [] \<and> (\<forall>c \<in> set [call_1, call_2]. valid_call c)
          \<and> versions_ok (stored_version ''u1'' ''t1'' empty_store) [call_1, call_2]"
    using v ok by simp
  note T = saves_form_undo_log[OF empty_store_unique,
      where u="''u1''" and t="''t1''" and cs="[call_1, call_2]"]
  note S = T[THEN conjunct2, THEN conjunct2, THEN mp, OF h]
  have c: "map d_content (filter (for_thread ''u1'' ''t1'')
        (user_data (run_saves ''u1'' ''t1'' [call_1, call_2] empty_store))) =
        [JObj [(''a'', JNum 2)]]"
    using S[THEN conjunct1] by (simp add: call_2_def)
  have n: "map backup_state
        (new_backups empty_store (run_saves ''u1'' ''t1'' [call_1, call_2] empty_store)) =
        [(''u1'', ''t1'', ''document'', JObj [(''a'', JNum 1)], 1)]"
    using S[THEN conjunct2, THEN conjunct2] by (simp add: e call_state_def call_1_def)
  show ?thesis using empty_store_unique v ok c n by simp
qed

text \<open>
  C3. The backup that Delete (and Restore) writes does not always hold the content it
  overwrites. A Save stores the empty array as the content of thread \<open>t1\<close>; the Delete
  of that thread succeeds, and the one backup it writes holds the empty object: the
  handler gives the content to the driver without \<open>JSON.stringify\<close>, and the driver
  sends the empty array as \<open>{}\<close>.
\<close>

theorem delete_backup_alters_content:
  "fst (save example_env ''u1'' list_request empty_store) = SaveOk 1 21
   \<and> map d_content (filter (for_thread ''u1'' ''t1'') (user_data store_list)) = [JArr []]
   \<and> fst (delete example_env ''u1'' ''t1'' store_list) = DeleteOk ''Data deleted successfully''
   \<and> map b_content
         (new_backups store_list (snd (delete example_env ''u1'' ''t1'' store_list))) =
       [JObj []]"
proof -
  have acc: "case filter (for_thread ''u1'' ''t1'') (user_data empty_store) of
               [] \<Rightarrow> True | d # rest \<Rightarrow> False \<or> d_version d \<le> 1"
    by (simp add: empty_store_def)
  obtain s1 where s1:
      "save example_env ''u1'' (save_request ''t1'' ''document'' (JArr []) 1 False) empty_store =
         (SaveOk 1 (js_now example_env), s1)"
      "unique_threads s1"
      "filter (for_thread ''u1'' ''t1'') (user_data s1) =
         [\<lparr>d_user_id = ''u1'', d_thread_id = ''t1'', d_data_type = ''document'',
           d_content = JArr [], d_version = 1, d_updated_at = db_now example_env\<rparr>]"
    using save_step[where e=example_env and s=empty_store and t="''t1''" and dt="''document''"
        and c="JArr []" and u="''u1''" and f=False and v=1,
        OF example_env_no_faults empty_store_unique _ _ _ acc]
    by (auto simp: valid_data_types_def)
  have sl: "store_list = s1"
    by (simp add: store_list_def list_request_def s1(1))
  obtain s2 where s2:
      "delete example_env ''u1'' ''t1'' s1 = (DeleteOk ''Data deleted successfully'', s2)"
      "data_backups s2 = data_backups s1 @
         map (\<lambda>d. backup_of (backup_seq s1) (db_now example_env)
                     (d\<lparr>d_content := pg_param example_env (d_content d)\<rparr>))
           (filter (for_thread ''u1'' ''t1'') (user_data s1))"
    using delete_step[OF example_env_no_faults s1(2), of "''u1''" "''t1''"] by blast
  have a: "fst (save example_env ''u1'' list_request empty_store) = SaveOk 1 21"
    by (simp add: list_request_def s1(1)) (simp add: example_env_def)
  have b: "map d_content (filter (for_thread ''u1'' ''t1'') (user_data store_list)) = [JArr []]"
    by (simp add: sl s1(3))
  have c: "fst (delete example_env ''u1'' ''t1'' store_list) = DeleteOk ''Data deleted successfully''"
    by (simp add: sl s2(1))
  have d: "map b_content
         (new_backups store_list (snd (delete example_env ''u1'' ''t1'' store_list))) =
       [JObj []]"
    by (simp add: sl s2 s1(3) new_backups_def backup_of_def)
  show ?thesis using a b c d by simp
qed

subsection \<open>Restore: the version written\<close>

text \<open>
  C4. A Restore that finds its backup (the store answering every statement): when a
  current Document exists for (user, thread), the Document afterwards has the backup's
  version plus one; when none exists, it has the backup's version.
\<close>

theorem restore_version_written:
  assumes "no_faults e" "unique_threads s" "backupId b = Some i"
    "filter (\<lambda>bk. b_id bk = i \<and> b_user_id bk = u) (data_backups s) = bk # rest"
  shows "(filter (for_thread u t) (user_data s) \<noteq> [] \<longrightarrow>
            map d_version (filter (for_thread u t) (user_data (snd (restore e u t b s)))) =
              [b_version bk + 1])
       \<and> (filter (for_thread u t) (user_data s) = [] \<longrightarrow>
            map d_version (filter (for_thread u t) (user_data (snd (restore e u t b s)))) =
              [b_version bk])"
proof -
  obtain s' where s': "restore e u t b s = (RestoreOk (b_version bk) (js_now e), s')"
      "filter (for_thread u t) (user_data s') =
               [\<lparr>d_user_id = u, d_thread_id = t, d_data_type = b_data_type bk,
                 d_content = pg_param e (b_content bk),
                 d_version = (if filter (for_thread u t) (user_data s) \<noteq> []
                              then b_version bk + 1 else b_version bk),
                 d_updated_at = db_now e\<rparr>]"
    using restore_step[OF assms, of t] by blast
  show ?thesis by (simp add: s')
qed

theorem restore_version_written_witness:
  "no_faults example_env \<and> unique_threads store_a \<and> backupId restore_request = Some 0
   \<and> filter (\<lambda>bk. b_id bk = 0 \<and> b_user_id bk = ''u1'') (data_backups store_a) = [backup_a]
   \<and> b_version backup_a = 1
   \<and> filter (for_thread ''u1'' ''t1'') (user_data store_a) \<noteq> []
   \<and> map d_version (filter (for_thread ''u1'' ''t1'')
        (user_data (snd (restore example_env ''u1'' ''t1'' restore_request store_a)))) = [2]
   \<and> filter (for_thread ''u1'' ''t9'') (user_data store_a) = []
   \<and> map d_version (filter (for_thread ''u1'' ''t9'')
        (user_data (snd (restore example_env ''u1'' ''t9'' restore_request store_a)))) = [1]"
proof -
  have b: "backupId restore_request = Some 0" by (simp add: restore_request_def)
  have v: "b_version backup_a = 1" by (simp add: backup_a_def)
  note r = restore_version_written[OF example_env_no_faults store_a_unique b store_a_backup_0]
  show ?thesis
    using r[of "''t1''"] r[of "''t9''"] example_env_no_faults store_a_unique b store_a_backup_0 v
      store_a_thread_t1 store_a_thread_t9
    by simp
qed

text \<open>
  C5. The response of a Restore carries the version of the backup, also on the update
  branch, where the row gets that version plus one: restoring backup 0 (version 1) over
  thread \<open>t1\<close> of \<open>store_a\<close> answers version 1 and stores version 2.
\<close>

theorem restore_reports_backup_version:
  "fst (restore example_env ''u1'' ''t1'' restore_request store_a) = RestoreOk 1 21
   \<and> map d_version (filter (for_thread ''u1'' ''t1'')
        (user_data (snd (restore example_env ''u1'' ''t1'' restore_request store_a)))) = [2]"
proof -
  have b: "backupId restore_request = Some 0" by (simp add: restore_request_def)
  obtain s' where s': "restore example_env ''u1'' ''t1'' restore_request store_a =
        (RestoreOk (b_version backup_a) (js_now example_env), s')"
      "filter (for_thread ''u1'' ''t1'') (user_data s') =
               [\<lparr>d_user_id = ''u1'', d_thread_id = ''t1'', d_data_type = b_data_type backup_a,
                 d_content = pg_param example_env (b_content backup_a),
                 d_version = (if filter (for_thread ''u1'' ''t1'') (user_data store_a) \<noteq> []
                              then b_version backup_a + 1 else b_version backup_a),
                 d_updated_at = db_now example_env\<rparr>]"
    using restore_step[OF example_env_no_faults store_a_unique b store_a_backup_0, of "''t1''"]
    by blast
  show ?thesis
    by (simp add: s' store_a_thread_t1) (simp add: backup_a_def example_env_def)
qed

subsection \<open>Rejected statements and the transaction\<close>

lemma healthy_fields [simp]:
  "fails (healthy e) q = False" "db_now (healthy e) = db_now e" "js_now (healthy e) = js_now e"
  "text_length (healthy e) = text_length e" "parseInt (healthy e) = parseInt e"
  "jsonb_in (healthy e) = jsonb_in e"
  by (simp_all add: healthy_def)

lemma pg_param_healthy [simp]: "pg_param (healthy e) c = pg_param e c"
proof (cases c)
  case (JArr xs)
  then show ?thesis by (cases xs) simp_all
qed simp_all

lemma stats_commit_healthy:
  "commit s (updateStorageStats e u (begin_txn s2)) =
     (if fails e SelectSize \<or> fails e UpsertStats then s
      else commit s (updateStorageStats (healthy e) u (begin_txn s2)))"
  by (simp add: stats_commit upsert_stats_def)

lemma insert_backup_select_healthy:
  "insert_backup_select e u t s =
     (if fails e InsertBackup then Inl QueryFailed else insert_backup_select (healthy e) u t s)"
  by (simp add: insert_backup_select_def)

lemma insert_backup_values_healthy:
  "insert_backup_values e u t dt c v s =
     (if fails e InsertBackup then Inl QueryFailed else insert_backup_values (healthy e) u t dt c v s)"
  by (simp add: insert_backup_values_def)

lemma upsert_healthy:
  "upsert e u t dt c v vup s =
     (if fails e UpsertUserData then Inl QueryFailed else upsert (healthy e) u t dt c v vup s)"
  by (simp add: upsert_def)

lemma upsert_healthy_Inr: "\<exists>s'. upsert (healthy e) u t dt c v vup s = Inr s'"
  by (simp add: upsert_def)

lemma insert_backup_select_healthy_Inr: "\<exists>s'. insert_backup_select (healthy e) u t s = Inr s'"
  by (simp add: insert_backup_select_def Let_def)

lemma insert_backup_values_healthy_Inr: "\<exists>s'. insert_backup_values (healthy e) u t dt c v s = Inr s'"
  by (simp add: insert_backup_values_def)

lemma delete_user_data_healthy:
  "delete_user_data e u t s =
     (if fails e DeleteUserData then Inl QueryFailed else delete_user_data (healthy e) u t s)"
  by (simp add: delete_user_data_def)

lemma select_user_data_healthy:
  "select_user_data e u t s =
     (if fails e SelectUserData then Inl QueryFailed
      else Inr (filter (for_thread u t) (user_data s)))"
  by (simp add: select_user_data_def)

lemma save_txn_cases:
  "save_txn e u t dt c v ex s =
     (if (ex \<noteq> [] \<and> fails e InsertBackup) \<or> fails e UpsertUserData
      then (InternalError ''Internal server error during sync'', s)
      else (SaveOk v (js_now e),
            if fails e SelectSize \<or> fails e UpsertStats then s
            else snd (save_txn (healthy e) u t dt c v ex s)))"
proof -
  obtain s1 where s1: "(if ex \<noteq> [] then insert_backup_select (healthy e) u t s else Inr s) = Inr s1"
    using insert_backup_select_healthy_Inr[of e u t s] by (cases "ex = []") auto
  obtain s2 where s2: "upsert (healthy e) u t dt c v v s1 = Inr s2"
    using upsert_healthy_Inr by blast
  have h: "save_txn (healthy e) u t dt c v ex s =
             (SaveOk v (js_now e), commit s (updateStorageStats (healthy e) u (begin_txn s2)))"
    using s1 s2 by (simp add: save_txn_def upsert_user_data_def)
  show ?thesis
  proof (cases "(ex \<noteq> [] \<and> fails e InsertBackup) \<or> fails e UpsertUserData")
    case True
    then show ?thesis
      using s1 by (auto simp: save_txn_def upsert_user_data_def insert_backup_select_healthy[of e]
                      upsert_healthy[of e] split: sum.splits)
  next
    case False
    then have "save_txn e u t dt c v ex s =
             (SaveOk v (js_now e), commit s (updateStorageStats e u (begin_txn s2)))"
      using s1 s2 by (auto simp: save_txn_def upsert_user_data_def insert_backup_select_healthy[of e]
                      upsert_healthy[of e])
    then show ?thesis using False h stats_commit_healthy[of s e u s2] by simp
  qed
qed


lemma restore_txn_cases:
  "restore_txn e u t bk s =
     (if fails e SelectUserData
         \<or> (filter (for_thread u t) (user_data s) \<noteq> [] \<and> fails e InsertBackup)
         \<or> fails e UpsertUserData
      then (InternalError ''Internal server error during restore'', s)
      else (RestoreOk (b_version bk) (js_now e),
            if fails e SelectSize \<or> fails e UpsertStats then s
            else snd (restore_txn (healthy e) u t bk s)))"
proof -
  let ?docs = "filter (for_thread u t) (user_data s)"
  have "\<exists>s1. (case ?docs of [] \<Rightarrow> Inr s
      | cur # rest \<Rightarrow> insert_backup_values (healthy e) u t (d_data_type cur) (d_content cur)
                        (d_version cur) s) = Inr s1"
    by (cases ?docs) (simp_all add: insert_backup_values_def)
  then obtain s1 where s1:
    "(case ?docs of [] \<Rightarrow> Inr s
      | cur # rest \<Rightarrow> insert_backup_values (healthy e) u t (d_data_type cur) (d_content cur)
                        (d_version cur) s) = Inr s1"
    by blast
  obtain s2 where s2:
    "upsert (healthy e) u t (b_data_type bk) (pg_param e (b_content bk)) (b_version bk)
       (b_version bk + 1) s1 = Inr s2"
    using upsert_healthy_Inr by blast
  have h: "restore_txn (healthy e) u t bk s =
             (RestoreOk (b_version bk) (js_now e),
              commit s (updateStorageStats (healthy e) u (begin_txn s2)))"
    using s1 s2 by (simp add: restore_txn_def upsert_user_data_restore_def select_user_data_def)
  show ?thesis
  proof (cases "fails e SelectUserData \<or> (?docs \<noteq> [] \<and> fails e InsertBackup)
                  \<or> fails e UpsertUserData")
    case True
    then show ?thesis
      using s1
      by (auto simp: restore_txn_def upsert_user_data_restore_def select_user_data_def
            insert_backup_values_healthy[of e] upsert_healthy[of e]
          split: sum.splits list.splits)
  next
    case False
    then have "restore_txn e u t bk s =
             (RestoreOk (b_version bk) (js_now e),
              commit s (updateStorageStats e u (begin_txn s2)))"
      using s1 s2
      by (auto simp: restore_txn_def upsert_user_data_restore_def select_user_data_def
            insert_backup_values_healthy[of e] upsert_healthy[of e]
          split: list.splits)
    then show ?thesis using False h stats_commit_healthy[of s e u s2] by simp
  qed
qed

lemma delete_cases:
  "delete e u t s =
     (if fails e SelectUserData
         \<or> (filter (for_thread u t) (user_data s) \<noteq> [] \<and> fails e InsertBackup)
         \<or> fails e DeleteUserData
      then (InternalError ''Internal server error during deletion'', s)
      else (DeleteOk ''Data deleted successfully'',
            if fails e SelectSize \<or> fails e UpsertStats then s
            else snd (delete (healthy e) u t s)))"
proof -
  let ?docs = "filter (for_thread u t) (user_data s)"
  have "\<exists>s1. (case ?docs of [] \<Rightarrow> Inr s
      | cur # rest \<Rightarrow> insert_backup_values (healthy e) u t (d_data_type cur) (d_content cur)
                        (d_version cur) s) = Inr s1"
    by (cases ?docs) (simp_all add: insert_backup_values_def)
  then obtain s1 where s1:
    "(case ?docs of [] \<Rightarrow> Inr s
      | cur # rest \<Rightarrow> insert_backup_values (healthy e) u t (d_data_type cur) (d_content cur)
                        (d_version cur) s) = Inr s1"
    by blast
  let ?s2 = "s1\<lparr>user_data := filter (\<lambda>d. \<not> for_thread u t d) (user_data s1)\<rparr>"
  have h: "delete (healthy e) u t s =
             (DeleteOk ''Data deleted successfully'',
              commit s (updateStorageStats (healthy e) u (begin_txn ?s2)))"
    using s1 by (simp add: delete_def delete_user_data_def select_user_data_def)
  show ?thesis
  proof (cases "fails e SelectUserData \<or> (?docs \<noteq> [] \<and> fails e InsertBackup)
                  \<or> fails e DeleteUserData")
    case True
    then show ?thesis
      using s1
      by (auto simp: delete_def delete_user_data_def select_user_data_def
            insert_backup_values_healthy[of e]
          split: sum.splits list.splits)
  next
    case False
    then have "delete e u t s =
             (DeleteOk ''Data deleted successfully'',
              commit s (updateStorageStats e u (begin_txn ?s2)))"
      using s1
      by (auto simp: delete_def delete_user_data_def select_user_data_def
            insert_backup_values_healthy[of e]
          split: list.splits)
    then show ?thesis using False h stats_commit_healthy[of s e u ?s2] by simp
  qed
qed


lemma save_txn_healthy_ok: "fst (save_txn (healthy e) u t dt c v ex s) = SaveOk v (js_now e)"
  using save_txn_cases[of "healthy e" u t dt c v ex s] by simp

lemma save_checked_atomic:
  shows "snd (save_checked e u t dt c v f s) = s
           \<or> snd (save_checked e u t dt c v f s) = snd (save_checked (healthy e) u t dt c v f s)"
    and "status (fst (save_checked e u t dt c v f s)) = 500 \<longrightarrow> snd (save_checked e u t dt c v f s) = s"
    and "status (fst (save_checked (healthy e) u t dt c v f s)) = 200
           \<and> (fails e UpsertUserData
               \<or> (fails e InsertBackup \<and> filter (for_thread u t) (user_data s) \<noteq> []))
         \<longrightarrow> save_checked e u t dt c v f s = (InternalError ''Internal server error during sync'', s)"
    and "(\<forall>q. fails e q \<longrightarrow> q = SelectSize \<or> q = UpsertStats)
         \<longrightarrow> fst (save_checked e u t dt c v f s) = fst (save_checked (healthy e) u t dt c v f s)"
proof -
  note c = save_txn_cases[of e u t dt c v _ s]
  show "snd (save_checked e u t dt c v f s) = s
           \<or> snd (save_checked e u t dt c v f s) = snd (save_checked (healthy e) u t dt c v f s)"
    by (auto simp: save_checked_def select_user_data_def c split: list.splits)
  show "status (fst (save_checked e u t dt c v f s)) = 500 \<longrightarrow> snd (save_checked e u t dt c v f s) = s"
    by (auto simp: save_checked_def select_user_data_def c split: list.splits)
  show "status (fst (save_checked (healthy e) u t dt c v f s)) = 200
           \<and> (fails e UpsertUserData
               \<or> (fails e InsertBackup \<and> filter (for_thread u t) (user_data s) \<noteq> []))
         \<longrightarrow> save_checked e u t dt c v f s = (InternalError ''Internal server error during sync'', s)"
    by (auto simp: save_checked_def select_user_data_def c split: list.splits if_splits)
  show "(\<forall>q. fails e q \<longrightarrow> q = SelectSize \<or> q = UpsertStats)
         \<longrightarrow> fst (save_checked e u t dt c v f s) = fst (save_checked (healthy e) u t dt c v f s)"
    by (auto simp: save_checked_def select_user_data_def c save_txn_healthy_ok split: list.splits)
qed


lemma save_atomic:
  shows "snd (save e u b s) = s \<or> snd (save e u b s) = snd (save (healthy e) u b s)"
    and "status (fst (save e u b s)) = 500 \<longrightarrow> snd (save e u b s) = s"
    and "status (fst (save (healthy e) u b s)) = 200
           \<and> (fails e UpsertUserData
               \<or> (fails e InsertBackup \<and> threadId b = Some t
                   \<and> filter (for_thread u t) (user_data s) \<noteq> []))
         \<longrightarrow> save e u b s = (InternalError ''Internal server error during sync'', s)"
    and "(\<forall>q. fails e q \<longrightarrow> q = SelectSize \<or> q = UpsertStats)
         \<longrightarrow> fst (save e u b s) = fst (save (healthy e) u b s)"
proof -
  show "snd (save e u b s) = s \<or> snd (save e u b s) = snd (save (healthy e) u b s)"
    using save_checked_atomic(1)[of e u _ _ _ "req_version b" "req_force b" s]
    by (auto simp: save_def split: option.splits)
  show "status (fst (save e u b s)) = 500 \<longrightarrow> snd (save e u b s) = s"
    using save_checked_atomic(2)[of e u _ _ _ "req_version b" "req_force b" s]
    by (auto simp: save_def split: option.splits)
  show "status (fst (save (healthy e) u b s)) = 200
           \<and> (fails e UpsertUserData
               \<or> (fails e InsertBackup \<and> threadId b = Some t
                   \<and> filter (for_thread u t) (user_data s) \<noteq> []))
         \<longrightarrow> save e u b s = (InternalError ''Internal server error during sync'', s)"
    using save_checked_atomic(3)[of e u _ _ _ "req_version b" "req_force b" s]
    by (auto simp: save_def split: option.splits if_splits)
  show "(\<forall>q. fails e q \<longrightarrow> q = SelectSize \<or> q = UpsertStats)
         \<longrightarrow> fst (save e u b s) = fst (save (healthy e) u b s)"
    using save_checked_atomic(4)[of e u _ _ _ "req_version b" "req_force b" s]
    by (auto simp: save_def split: option.splits)
qed

lemma restore_txn_healthy_ok:
  "fst (restore_txn (healthy e) u t bk s) = RestoreOk (b_version bk) (js_now e)"
  using restore_txn_cases[of "healthy e" u t bk s] by simp

lemma restore_atomic:
  shows "snd (restore e u t b s) = s \<or> snd (restore e u t b s) = snd (restore (healthy e) u t b s)"
    and "status (fst (restore e u t b s)) = 500 \<longrightarrow> snd (restore e u t b s) = s"
    and "status (fst (restore (healthy e) u t b s)) = 200
           \<and> (fails e UpsertUserData
               \<or> (fails e InsertBackup \<and> filter (for_thread u t) (user_data s) \<noteq> []))
         \<longrightarrow> restore e u t b s = (InternalError ''Internal server error during restore'', s)"
    and "(\<forall>q. fails e q \<longrightarrow> q = SelectSize \<or> q = UpsertStats)
         \<longrightarrow> fst (restore e u t b s) = fst (restore (healthy e) u t b s)"
proof -
  note c = restore_txn_cases[of e u t _ s]
  show "snd (restore e u t b s) = s \<or> snd (restore e u t b s) = snd (restore (healthy e) u t b s)"
    by (auto simp: restore_def select_backup_by_id_def c split: option.splits list.splits)
  show "status (fst (restore e u t b s)) = 500 \<longrightarrow> snd (restore e u t b s) = s"
    by (auto simp: restore_def select_backup_by_id_def c split: option.splits list.splits)
  show "status (fst (restore (healthy e) u t b s)) = 200
           \<and> (fails e UpsertUserData
               \<or> (fails e InsertBackup \<and> filter (for_thread u t) (user_data s) \<noteq> []))
         \<longrightarrow> restore e u t b s = (InternalError ''Internal server error during restore'', s)"
    by (auto simp: restore_def select_backup_by_id_def c split: option.splits list.splits if_splits)
  show "(\<forall>q. fails e q \<longrightarrow> q = SelectSize \<or> q = UpsertStats)
         \<longrightarrow> fst (restore e u t b s) = fst (restore (healthy e) u t b s)"
    by (auto simp: restore_def select_backup_by_id_def c restore_txn_healthy_ok
             split: option.splits list.splits)
qed

lemma delete_healthy_ok:
  "fst (delete (healthy e) u t s) = DeleteOk ''Data deleted successfully''"
  using delete_cases[of "healthy e" u t s] by simp

lemma delete_atomic:
  shows "snd (delete e u t s) = s \<or> snd (delete e u t s) = snd (delete (healthy e) u t s)"
    and "status (fst (delete e u t s)) = 500 \<longrightarrow> snd (delete e u t s) = s"
    and "fails e DeleteUserData
           \<or> (fails e InsertBackup \<and> filter (for_thread u t) (user_data s) \<noteq> [])
         \<longrightarrow> delete e u t s = (InternalError ''Internal server error during deletion'', s)"
    and "(\<forall>q. fails e q \<longrightarrow> q = SelectSize \<or> q = UpsertStats)
         \<longrightarrow> fst (delete e u t s) = fst (delete (healthy e) u t s)
             \<and> fst (delete e u t s) = DeleteOk ''Data deleted successfully''"
proof -
  note c = delete_cases[of e u t s]
  show "snd (delete e u t s) = s \<or> snd (delete e u t s) = snd (delete (healthy e) u t s)"
    by (auto simp: c)
  show "status (fst (delete e u t s)) = 500 \<longrightarrow> snd (delete e u t s) = s"
    by (auto simp: c)
  show "fails e DeleteUserData
           \<or> (fails e InsertBackup \<and> filter (for_thread u t) (user_data s) \<noteq> [])
         \<longrightarrow> delete e u t s = (InternalError ''Internal server error during deletion'', s)"
    by (auto simp: c)
  show "(\<forall>q. fails e q \<longrightarrow> q = SelectSize \<or> q = UpsertStats)
         \<longrightarrow> fst (delete e u t s) = fst (delete (healthy e) u t s)
             \<and> fst (delete e u t s) = DeleteOk ''Data deleted successfully''"
    by (auto simp: c delete_healthy_ok)
qed

lemma save_checked_stats_failure:
  "fails e SelectSize \<or> fails e UpsertStats \<Longrightarrow> snd (save_checked e u t dt c v f s) = s"
  by (auto simp: save_checked_def select_user_data_def save_txn_cases[of e u t dt c v _ s]
           split: list.splits)

lemma save_stats_failure:
  "fails e SelectSize \<or> fails e UpsertStats \<Longrightarrow> snd (save e u b s) = s"
  using save_checked_stats_failure[of e u _ _ _ "req_version b" "req_force b" s]
  by (auto simp: save_def split: option.splits)

lemma restore_stats_failure:
  "fails e SelectSize \<or> fails e UpsertStats \<Longrightarrow> snd (restore e u t b s) = s"
  by (auto simp: restore_def select_backup_by_id_def restore_txn_cases[of e u t _ s]
           split: option.splits list.splits)

lemma delete_stats_failure:
  "fails e SelectSize \<or> fails e UpsertStats \<Longrightarrow> snd (delete e u t s) = s"
  by (auto simp: delete_cases[of e u t s])

lemma healthy_no_faults: "no_faults (healthy e)"
  by (simp add: no_faults_def)

lemma newer_request_healthy:
  assumes nf: "no_faults e"
  shows "\<exists>s'. save e ''u1'' newer_request store_a = (SaveOk 6 (js_now e), s')
           \<and> map d_version (filter (for_thread ''u1'' ''t1'') (user_data s')) = [6]"
proof -
  have acc: "case filter (for_thread ''u1'' ''t1'') (user_data store_a) of
               [] \<Rightarrow> True | d # rest \<Rightarrow> False \<or> d_version d \<le> 6"
    by (simp add: store_a_thread_t1 doc_a_def)
  obtain s' where s':
      "save e ''u1'' (save_request ''t1'' ''document'' (JObj [(''a'', JNum 6)]) 6 False) store_a =
         (SaveOk 6 (js_now e), s')"
      "filter (for_thread ''u1'' ''t1'') (user_data s') =
         [\<lparr>d_user_id = ''u1'', d_thread_id = ''t1'', d_data_type = ''document'',
           d_content = JObj [(''a'', JNum 6)], d_version = 6, d_updated_at = db_now e\<rparr>]"
    using save_step[where e=e and s=store_a and t="''t1''" and dt="''document''"
        and c="JObj [(''a'', JNum 6)]" and u="''u1''" and f=False and v=6,
        OF nf store_a_unique _ _ _ acc]
    by (auto simp: valid_data_types_def)
  show ?thesis using s' by (simp add: newer_request_def)
qed

text \<open>
  C2. A rejected statement of the statistics recomputation does not fail the operation.
  With the upsert of the statistics rejected, a Save of version 6 over thread \<open>t1\<close> of
  \<open>store_a\<close> answers success with version 6, and the store is as before, the thread
  still at version 5, where the same Save with nothing rejected leaves it at version 6:
  \<open>updateStorageStats\<close> catches the failure, the handler issues \<open>COMMIT\<close> on the aborted
  transaction and reports the write as done.
\<close>

theorem stats_failure_answers_success:
  "fails stats_down_env UpsertStats
   \<and> fst (save stats_down_env ''u1'' newer_request store_a) = SaveOk 6 21
   \<and> snd (save stats_down_env ''u1'' newer_request store_a) = store_a
   \<and> map d_version (filter (for_thread ''u1'' ''t1'') (user_data store_a)) = [5]
   \<and> map d_version (filter (for_thread ''u1'' ''t1'')
         (user_data (snd (save (healthy stats_down_env) ''u1'' newer_request store_a)))) = [6]"
proof -
  have f: "fails stats_down_env UpsertStats" by (simp add: stats_down_env_def)
  have only: "\<forall>q. fails stats_down_env q \<longrightarrow> q = SelectSize \<or> q = UpsertStats"
    by (simp add: stats_down_env_def)
  obtain s' where s':
      "save (healthy stats_down_env) ''u1'' newer_request store_a =
         (SaveOk 6 (js_now (healthy stats_down_env)), s')"
      "map d_version (filter (for_thread ''u1'' ''t1'') (user_data s')) = [6]"
    using newer_request_healthy[OF healthy_no_faults, of stats_down_env] by (elim exE conjE)
  have "fst (save stats_down_env ''u1'' newer_request store_a) =
          fst (save (healthy stats_down_env) ''u1'' newer_request store_a)"
    using save_atomic(4)[of stats_down_env "''u1''" newer_request store_a] only by blast
  also have "\<dots> = SaveOk 6 (js_now (healthy stats_down_env))"
    by (simp add: s'(1))
  also have "\<dots> = SaveOk 6 21" by (simp add: stats_down_env_def example_env_def)
  finally have a: "fst (save stats_down_env ''u1'' newer_request store_a) = SaveOk 6 21" .
  have b: "snd (save stats_down_env ''u1'' newer_request store_a) = store_a"
    using save_stats_failure[of stats_down_env "''u1''" newer_request store_a] f by blast
  have c: "map d_version (filter (for_thread ''u1'' ''t1'') (user_data store_a)) = [5]"
    by (simp add: store_a_thread_t1 doc_a_def)
  have d: "map d_version (filter (for_thread ''u1'' ''t1'')
         (user_data (snd (save (healthy stats_down_env) ''u1'' newer_request store_a)))) = [6]"
    by (simp add: s')
  show ?thesis using f a b c d by simp
qed

subsection \<open>The stats route\<close>

text \<open>
  C6. A GET request for the path \<open>/stats\<close> matches the route \<open>/:threadId\<close>, registered
  before \<open>/stats\<close>, and is answered by Load for the thread named \<open>stats\<close>: for user \<open>u1\<close>
  of \<open>store_a\<close> the answer is 404, where Stats would report no statistics row, one
  thread and one backup.
\<close>

theorem stats_route_shadowed:
  "handle e (Authenticated u)
      \<lparr>r_method = GET, r_path = [''stats''], r_query_dataType = q, r_query_limit = l,
       r_body = b\<rparr> s
     = load e u ''stats'' q s
   \<and> handle example_env (Authenticated ''u1'') stats_request store_a =
       (NotFound ''Data not found'', store_a)
   \<and> stats example_env ''u1'' store_a = (StatsOk None 1 1, store_a)"
proof (intro conjI)
  have r: "find_route routes GET [''stats''] = Some (LoadH, [''stats''])"
    by (simp add: routes_def)
  show "handle e (Authenticated u)
      \<lparr>r_method = GET, r_path = [''stats''], r_query_dataType = q, r_query_limit = l,
       r_body = b\<rparr> s
     = load e u ''stats'' q s"
    by (simp add: handle_def r)
  show "handle example_env (Authenticated ''u1'') stats_request store_a =
       (NotFound ''Data not found'', store_a)"
    by (simp add: handle_def r stats_request_def load_def valid_data_types_def
          select_user_data_def example_env_def store_a_def doc_a_def for_thread_def)
  show "stats example_env ''u1'' store_a = (StatsOk None 1 1, store_a)"
    by (simp add: stats_def select_stats_def count_user_data_def count_backups_def
          example_env_def store_a_def doc_a_def backup_a_def)
qed

subsection \<open>Delete: the response\<close>

text \<open>
  C8, as the code has it. A Delete whose statements the store answers succeeds, also
  when no current Document exists for (user, thread), and its response is the same
  fixed message in both cases.
\<close>

theorem delete_response_fixed:
  "\<not> fails e SelectUserData \<and> \<not> fails e DeleteUserData
     \<and> (filter (for_thread u t) (user_data s) = [] \<or> \<not> fails e InsertBackup)
   \<longrightarrow> fst (delete e u t s) = DeleteOk ''Data deleted successfully''"
  by (auto simp: delete_cases[of e u t s])

theorem delete_response_fixed_witness:
  "\<not> fails example_env SelectUserData \<and> \<not> fails example_env DeleteUserData
   \<and> filter (for_thread ''u1'' ''t1'') (user_data empty_store) = []
   \<and> fst (delete example_env ''u1'' ''t1'' empty_store) = DeleteOk ''Data deleted successfully''
   \<and> \<not> fails example_env InsertBackup
   \<and> fst (delete example_env ''u1'' ''t1'' store_a) = DeleteOk ''Data deleted successfully''"
proof -
  have f: "\<not> fails example_env SelectUserData" "\<not> fails example_env DeleteUserData"
    "\<not> fails example_env InsertBackup"
    by (simp_all add: example_env_def)
  have e: "filter (for_thread ''u1'' ''t1'') (user_data empty_store) = []"
    by (simp add: empty_store_def)
  show ?thesis
    using f e delete_response_fixed[of example_env "''u1''" "''t1''" empty_store]
      delete_response_fixed[of example_env "''u1''" "''t1''" store_a]
    by blast
qed

text \<open>
  C8 as stated fails: deleting thread \<open>t1\<close> of \<open>store_a\<close>, which removes a row, and
  deleting it in the empty store, which removes none, send the same response.
\<close>

theorem delete_response_counterexample:
  "filter (for_thread ''u1'' ''t1'') (user_data store_a) = [doc_a]
   \<and> filter (for_thread ''u1'' ''t1'') (user_data (snd (delete example_env ''u1'' ''t1'' store_a))) = []
   \<and> filter (for_thread ''u1'' ''t1'') (user_data empty_store) = []
   \<and> fst (delete example_env ''u1'' ''t1'' store_a) = fst (delete example_env ''u1'' ''t1'' empty_store)"
proof -
  obtain s' where s': "delete example_env ''u1'' ''t1'' store_a = (DeleteOk ''Data deleted successfully'', s')"
      "filter (for_thread ''u1'' ''t1'') (user_data s') = []"
    using delete_step[OF example_env_no_faults store_a_unique, of "''u1''" "''t1''"] by blast
  obtain s'' where s'': "delete example_env ''u1'' ''t1'' empty_store = (DeleteOk ''Data deleted successfully'', s'')"
    using delete_step[OF example_env_no_faults empty_store_unique, of "''u1''" "''t1''"] by blast
  show ?thesis using s' s'' store_a_thread_t1 by (simp add: empty_store_def)
qed

end
